theory Spec2Isabelle
  imports Complex_Main
begin

section \<open>The Enviro+ monitor (examples/monitor.py)\<close>

text \<open>
  The program samples ten environmental variables and draws them on a small LCD, one
  variable per page or all of them on a grid page. It is a single loop over global
  variables. The embedding keeps the globals in one record that every function takes and
  returns; a Python exception is the left summand of the result. Python floats are
  modelled as reals: the claims concern comparisons, sums and quotients of readings, not
  rounding. What the sensors and the clock return are inputs of an iteration; every sensor
  read, log line, frame and backlight command is appended, in order, to the trace
  \<open>out\<close>.
\<close>

subsection \<open>Data\<close>

type_synonym rgb = "int \<times> int \<times> int"

type_synonym box = "real \<times> real \<times> real \<times> real"

datatype error =
    KeyError string
  | IndexError
  | ValueError
  | ZeroDivisionError
  | UnboundLocalError string
  | TypeError
  | SystemExit int
  | Uncaught string

text \<open>
  The text of a label, \<^verbatim>\<open>f"{variable[:4]}: {data:.1f} {unit}"\<close>, kept as its three
  parts: the name already cut to four characters, the number that is printed to one
  decimal, and the unit.
\<close>

datatype message = Message string real string

text \<open>A TrueType face of the user font at a pixel size.\<close>

datatype typeface = RobotoMedium nat

datatype draw_op =
    Rectangle box rgb
  | Text "real \<times> real" message typeface rgb

datatype sensor =
    Proximity | Lux | CpuTemperature | Temperature | Pressure | Humidity | Gas | Particulates

datatype event =
    Read sensor
  | Info message
  | Warning string
  | Display "draw_op list"
  | Backlight real

text \<open>What \<^verbatim>\<open>pms5003.read()\<close> does: data, or one of the library's exceptions.\<close>

datatype pms_result =
    PmsData real real real
  | SerialTimeoutError
  | ReadTimeoutError
  | PmsRaises string

text \<open>The readings one iteration of the loop can take, in the order of the source.\<close>

record readings =
  r_proximity :: real
  r_lux :: real
  r_now :: real
  r_time_check :: real
  r_time_set :: real
  r_cpu_temperature :: real
  r_temperature :: real
  r_pressure :: real
  r_humidity :: real
  r_lux_page :: real
  r_gas :: "real \<times> real \<times> real"
  r_pms :: pms_result

text \<open>The module's globals, and the trace of what the program emitted.\<close>

record state =
  WIDTH :: int
  HEIGHT :: int
  img :: "draw_op list"
  values_dict :: "string \<rightharpoonup> real list"
  mode :: int
  last_page :: real
  cpu_temps :: "real list"
  proximity :: real
  lux :: real
  screen_on :: bool
  dimmed :: bool
  light_off_time :: "real option"
  light_on_time :: "real option"
  out :: "event list"

subsection \<open>Constants of setup_display, setup_variables and setup_state\<close>

definition variables :: "string list" where
  "variables = [''temperature'', ''pressure'', ''humidity'', ''light'',
     ''oxidised'', ''reduced'', ''nh3'', ''pm1'', ''pm25'', ''pm10'']"

definition units :: "string list" where
  "units = [''C'', ''hPa'', ''%'', ''Lux'', ''kO'', ''kO'', ''kO'',
     ''ug/m3'', ''ug/m3'', ''ug/m3'']"

definition limits :: "real list list" where
  "limits = [
     [4, 18, 28, 35],
     [250, 650, 1013.25, 1015],
     [20, 30, 60, 70],
     [-1, -1, 30000, 100000],
     [-1, -1, 40, 50],
     [-1, -1, 450, 550],
     [-1, -1, 200, 300],
     [-1, -1, 50, 100],
     [-1, -1, 50, 100],
     [-1, -1, 50, 100]]"

definition palette :: "rgb list" where
  "palette = [(0, 0, 255), (0, 255, 255), (0, 255, 0), (255, 255, 0), (255, 0, 0)]"

definition font :: typeface where
  "font = RobotoMedium 20"

definition smallfont :: typeface where
  "smallfont = RobotoMedium 10"

definition x_offset :: int where
  "x_offset = 2"

definition y_offset :: int where
  "y_offset = 2"

definition top_pos :: int where
  "top_pos = 25"

definition delay :: real where
  "delay = 0.5"

definition factor :: real where
  "factor = 2.25"

definition dim_delay :: real where
  "dim_delay = 2"

definition off_delay :: real where
  "off_delay = 4"

definition on_delay :: real where
  "on_delay = 3"

text \<open>
  \<^verbatim>\<open>setup()\<close> for a display of the given size, at clock reading \<open>t\<close>, followed by the
  assignments that open \<^verbatim>\<open>main_loop\<close>. \<^verbatim>\<open>setup_variables\<close> leaves \<^verbatim>\<open>values = {}\<close>;
  \<^verbatim>\<open>proximity\<close> and \<^verbatim>\<open>lux\<close> have no value before the first iteration assigns them.
\<close>

definition setup_program :: "int \<Rightarrow> int \<Rightarrow> real \<Rightarrow> state" where
  "setup_program w h t =
     \<lparr> WIDTH = w, HEIGHT = h,
       img = [Rectangle (0, 0, real_of_int w, real_of_int h) (0, 0, 0)],
       values_dict = Map.empty,
       mode = 0, last_page = t, cpu_temps = replicate 5 0,
       proximity = 0, lux = 0,
       screen_on = True, dimmed = False, light_off_time = None, light_on_time = None,
       out = [] \<rparr>"

subsection \<open>The canvas, the display and the log\<close>

text \<open>
  The canvas is the list of shapes painted on it. PIL fills the inclusive box of a
  rectangle, so a rectangle that contains every pixel of the canvas hides all that was
  painted before it: the canvas is then that rectangle alone.
\<close>

definition covers_canvas :: "state \<Rightarrow> box \<Rightarrow> bool" where
  "covers_canvas st b =
     (case b of (x0, y0, x1, y1) \<Rightarrow>
        x0 \<le> 0 \<and> y0 \<le> 0 \<and> real_of_int (WIDTH st) - 1 \<le> x1 \<and> real_of_int (HEIGHT st) - 1 \<le> y1)"

definition draw_rectangle :: "box \<Rightarrow> rgb \<Rightarrow> state \<Rightarrow> state" where
  "draw_rectangle b fill st =
     st\<lparr>img := (if covers_canvas st b then [] else img st) @ [Rectangle b fill]\<rparr>"

definition draw_text :: "real \<times> real \<Rightarrow> message \<Rightarrow> typeface \<Rightarrow> rgb \<Rightarrow> state \<Rightarrow> state" where
  "draw_text xy msg f fill st = st\<lparr>img := img st @ [Text xy msg f fill]\<rparr>"

definition st7735_display :: "state \<Rightarrow> state" where
  "st7735_display st = st\<lparr>out := out st @ [Display (img st)]\<rparr>"

definition set_backlight :: "real \<Rightarrow> state \<Rightarrow> state" where
  "set_backlight level st = st\<lparr>out := out st @ [Backlight level]\<rparr>"

definition logging_info :: "message \<Rightarrow> state \<Rightarrow> state" where
  "logging_info msg st = st\<lparr>out := out st @ [Info msg]\<rparr>"

definition logging_warning :: "string \<Rightarrow> state \<Rightarrow> state" where
  "logging_warning s st = st\<lparr>out := out st @ [Warning s]\<rparr>"

definition sensor_read :: "sensor \<Rightarrow> state \<Rightarrow> state" where
  "sensor_read s st = st\<lparr>out := out st @ [Read s]\<rparr>"

subsection \<open>Python's built-ins\<close>

definition py_min :: "real list \<Rightarrow> error + real" where
  "py_min xs = (case xs of [] \<Rightarrow> Inl ValueError | x # r \<Rightarrow> Inr (fold min r x))"

definition py_max :: "real list \<Rightarrow> error + real" where
  "py_max xs = (case xs of [] \<Rightarrow> Inl ValueError | x # r \<Rightarrow> Inr (fold max r x))"

definition py_truediv :: "real \<Rightarrow> real \<Rightarrow> error + real" where
  "py_truediv a b = (if b = 0 then Inl ZeroDivisionError else Inr (a / b))"

text \<open>\<^verbatim>\<open>int(x)\<close> of a float: truncation towards zero.\<close>

definition py_int :: "real \<Rightarrow> int" where
  "py_int x = (if 0 \<le> x then \<lfloor>x\<rfloor> else \<lceil>x\<rceil>)"

text \<open>\<^verbatim>\<open>colorsys.hsv_to_rgb\<close> of the standard library.\<close>

definition hsv_to_rgb :: "real \<Rightarrow> real \<Rightarrow> real \<Rightarrow> real \<times> real \<times> real" where
  "hsv_to_rgb h s v =
     (if s = 0 then (v, v, v)
      else
        let i = py_int (h * 6);
            f = h * 6 - real_of_int i;
            p = v * (1 - s);
            q = v * (1 - s * f);
            t = v * (1 - s * (1 - f));
            i = i mod 6
        in if i = 0 then (v, t, p)
           else if i = 1 then (q, v, p)
           else if i = 2 then (p, v, t)
           else if i = 3 then (p, q, v)
           else if i = 4 then (t, p, v)
           else (v, p, q))"

text \<open>A \<^verbatim>\<open>for\<close> loop whose body may raise: the first exception ends it.\<close>

fun for_each :: "('a \<Rightarrow> state \<Rightarrow> error + state) \<Rightarrow> 'a list \<Rightarrow> state \<Rightarrow> error + state" where
  "for_each body [] st = Inr st"
| "for_each body (i # is) st =
     (case body i st of Inl e \<Rightarrow> Inl e | Inr st' \<Rightarrow> for_each body is st')"

text \<open>Sequencing of statements that may raise.\<close>

definition then_do :: "error + 'a \<Rightarrow> ('a \<Rightarrow> error + 'b) \<Rightarrow> error + 'b" where
  "then_do r k = (case r of Inl e \<Rightarrow> Inl e | Inr x \<Rightarrow> k x)"

subsection \<open>display_text: the single-variable page\<close>

text \<open>
  The comprehension \<^verbatim>\<open>[(v - vmin + 1) / (vmax - vmin + 1) for v in values[variable]]\<close>:
  one division per sample, each of which raises on a zero divisor.
\<close>

fun scale_all :: "real \<Rightarrow> real \<Rightarrow> real list \<Rightarrow> error + real list" where
  "scale_all vmin vmax [] = Inr []"
| "scale_all vmin vmax (v # vs) =
     then_do (py_truediv (v - vmin + 1) (vmax - vmin + 1)) (\<lambda>c.
     then_do (scale_all vmin vmax vs) (\<lambda>cs. Inr (c # cs)))"

definition colours :: "real list \<Rightarrow> error + real list" where
  "colours vs =
     then_do (py_min vs) (\<lambda>vmin.
     then_do (py_max vs) (\<lambda>vmax. scale_all vmin vmax vs))"

text \<open>The body of the loop over the columns of the graph.\<close>

definition plot_column :: "real list \<Rightarrow> nat \<Rightarrow> state \<Rightarrow> state" where
  "plot_column cs i st =
     (let colour = (1 - cs ! i) * 0.6;
          fill = (case hsv_to_rgb colour 1 1 of
                    (r, g, b) \<Rightarrow> (py_int (r * 255), py_int (g * 255), py_int (b * 255)));
          st = draw_rectangle
                 (real i, real_of_int top_pos, real i + 1, real_of_int (HEIGHT st)) fill st;
          line_y = real_of_int (HEIGHT st)
                     - (real_of_int top_pos + cs ! i * real_of_int (HEIGHT st - top_pos))
                     + real_of_int top_pos
      in draw_rectangle (real i, line_y, real i + 1, line_y + 1) (0, 0, 0) st)"

definition display_text :: "string \<Rightarrow> real \<Rightarrow> string \<Rightarrow> state \<Rightarrow> error + state" where
  "display_text variable data unit st =
     (case values_dict st variable of
        None \<Rightarrow> Inl (KeyError variable)
      | Some buf \<Rightarrow>
          let vs = drop 1 buf @ [data];
              st = st\<lparr>values_dict := (values_dict st)(variable \<mapsto> vs)\<rparr>
          in then_do (colours vs) (\<lambda>cs.
               let msg = Message (take 4 variable) data unit;
                   st = logging_info msg st;
                   st = draw_rectangle
                          (0, 0, real_of_int (WIDTH st), real_of_int (HEIGHT st))
                          (255, 255, 255) st;
                   st = fold (plot_column cs) [0..<length cs] st;
                   st = draw_text (0, 0) msg font (0, 0, 0) st
               in Inr (st7735_display st)))"

subsection \<open>save_data and display_everything: the grid page\<close>

definition save_data :: "nat \<Rightarrow> real \<Rightarrow> state \<Rightarrow> error + state" where
  "save_data idx data st =
     (if idx < length variables then
        let variable = variables ! idx
        in case values_dict st variable of
             None \<Rightarrow> Inl (KeyError variable)
           | Some buf \<Rightarrow>
               let st = st\<lparr>values_dict := (values_dict st)(variable \<mapsto> drop 1 buf @ [data])\<rparr>
               in if idx < length units
                  then Inr (logging_info (Message (take 4 variable) data (units ! idx)) st)
                  else Inl IndexError
      else Inl IndexError)"

text \<open>
  The loop over the limits of one variable: \<^verbatim>\<open>rgb\<close> starts as \<^verbatim>\<open>palette[0]\<close> and
  becomes \<^verbatim>\<open>palette[j + 1]\<close> at each \<open>j\<close> whose limit the value exceeds.
\<close>

fun severity_loop :: "real \<Rightarrow> real list \<Rightarrow> nat list \<Rightarrow> rgb \<Rightarrow> error + rgb" where
  "severity_loop data_value lims [] c = Inr c"
| "severity_loop data_value lims (j # js) c =
     (if data_value > lims ! j
      then (if j + 1 < length palette
            then severity_loop data_value lims js (palette ! (j + 1))
            else Inl IndexError)
      else severity_loop data_value lims js c)"

definition severity_colour :: "real \<Rightarrow> real list \<Rightarrow> error + rgb" where
  "severity_colour data_value lims = severity_loop data_value lims [0..<length lims] (palette ! 0)"

text \<open>
  The body of the loop over the variables. \<^verbatim>\<open>row_count\<close> is the float
  \<^verbatim>\<open>len(variables) / column_count\<close>, so \<^verbatim>\<open>i // row_count\<close> and \<^verbatim>\<open>i % row_count\<close> are
  the floor quotient and its remainder on floats.
\<close>

definition draw_cell :: "nat \<Rightarrow> state \<Rightarrow> error + state" where
  "draw_cell i st =
     (let variable = variables ! i
      in case values_dict st variable of
           None \<Rightarrow> Inl (KeyError variable)
         | Some buf \<Rightarrow>
             if buf = [] then Inl IndexError
             else
               let data_value = last buf;
                   unit = units ! i;
                   column_count = 2;
                   row_count = real (length variables) / real_of_int column_count;
                   x = real_of_int x_offset
                         + real_of_int (WIDTH st div column_count)
                             * real_of_int \<lfloor>real i / row_count\<rfloor>;
                   y = real_of_int y_offset
                         + (real_of_int (HEIGHT st) / row_count)
                             * (real i - row_count * real_of_int \<lfloor>real i / row_count\<rfloor>);
                   msg = Message (take 4 variable) data_value unit
               in then_do (severity_colour data_value (limits ! i)) (\<lambda>c.
                    Inr (draw_text (x, y) msg smallfont c st)))"

definition display_everything :: "state \<Rightarrow> error + state" where
  "display_everything st =
     (let st = draw_rectangle
                 (0, 0, real_of_int (WIDTH st), real_of_int (HEIGHT st)) (0, 0, 0) st
      in then_do (for_each draw_cell [0..<length variables] st) (\<lambda>st.
           Inr (st7735_display st)))"

subsection \<open>The page handlers\<close>

text \<open>
  The statements \<^verbatim>\<open>cpu_temps = cpu_temps[1:] + [cpu_temp]\<close> and
  \<^verbatim>\<open>avg_cpu_temp = sum(cpu_temps) / float(len(cpu_temps))\<close>, run where the name
  \<^verbatim>\<open>cpu_temps\<close> is bound to the given list, or to nothing.
\<close>

definition smooth_cpu_temps :: "real list option \<Rightarrow> real \<Rightarrow> error + real list \<times> real" where
  "smooth_cpu_temps binding cpu_temp =
     (case binding of
        None \<Rightarrow> Inl (UnboundLocalError ''cpu_temps'')
      | Some old \<Rightarrow>
          let window = drop 1 old @ [cpu_temp]
          in then_do (py_truediv (sum_list window) (real (length window))) (\<lambda>avg_cpu_temp.
               Inr (window, avg_cpu_temp)))"

text \<open>
  Both handlers that smooth assign \<^verbatim>\<open>cpu_temps\<close> in their body and do not declare it
  \<^verbatim>\<open>global\<close>, so in them the name is a local of the call; a call starts with its locals
  unbound. The window that \<^verbatim>\<open>setup_state\<close> made is the global of the same name, which
  these bodies do not read.
\<close>

definition local_cpu_temps :: "real list option" where
  "local_cpu_temps = None"

definition degrees_C :: string where
  "degrees_C = [CHR 0xB0, CHR ''C'']"

definition handle_temperature_mode :: "readings \<Rightarrow> state \<Rightarrow> error + state" where
  "handle_temperature_mode rd st =
     (let unit = degrees_C;
          st = sensor_read CpuTemperature st;
          cpu_temp = r_cpu_temperature rd
      in then_do (smooth_cpu_temps local_cpu_temps cpu_temp) (\<lambda>(window, avg_cpu_temp).
           let st = sensor_read Temperature st;
               raw_temp = r_temperature rd;
               data = raw_temp - ((avg_cpu_temp - raw_temp) / factor)
           in display_text (variables ! 0) data unit st))"

definition handle_pressure_mode :: "readings \<Rightarrow> state \<Rightarrow> error + state" where
  "handle_pressure_mode rd st =
     display_text (variables ! 1) (r_pressure rd) ''hPa'' (sensor_read Pressure st)"

definition handle_humidity_mode :: "readings \<Rightarrow> state \<Rightarrow> error + state" where
  "handle_humidity_mode rd st =
     display_text (variables ! 2) (r_humidity rd) ''%'' (sensor_read Humidity st)"

definition handle_light_mode :: "readings \<Rightarrow> state \<Rightarrow> error + state" where
  "handle_light_mode rd st =
     (if proximity st < 10
      then display_text (variables ! 3) (r_lux_page rd) ''Lux'' (sensor_read Lux st)
      else display_text (variables ! 3) 1 ''Lux'' st)"

definition handle_oxidised_mode :: "readings \<Rightarrow> state \<Rightarrow> error + state" where
  "handle_oxidised_mode rd st =
     (case r_gas rd of (oxidising, reducing, nh3) \<Rightarrow>
        display_text (variables ! 4) (oxidising / 1000) ''kO'' (sensor_read Gas st))"

definition handle_reduced_mode :: "readings \<Rightarrow> state \<Rightarrow> error + state" where
  "handle_reduced_mode rd st =
     (case r_gas rd of (oxidising, reducing, nh3) \<Rightarrow>
        display_text (variables ! 5) (reducing / 1000) ''kO'' (sensor_read Gas st))"

definition handle_nh3_mode :: "readings \<Rightarrow> state \<Rightarrow> error + state" where
  "handle_nh3_mode rd st =
     (case r_gas rd of (oxidising, reducing, nh3) \<Rightarrow>
        display_text (variables ! 6) (nh3 / 1000) ''kO'' (sensor_read Gas st))"

text \<open>
  The three particulate handlers differ in the variable and in the size read from the
  data. The \<^verbatim>\<open>except\<close> clause catches the two timeouts; any other exception leaves the
  handler.
\<close>

definition handle_pm1_mode :: "readings \<Rightarrow> state \<Rightarrow> error + state" where
  "handle_pm1_mode rd st =
     (let st = sensor_read Particulates st
      in case r_pms rd of
           SerialTimeoutError \<Rightarrow> Inr (logging_warning ''Failed to read PMS5003'' st)
         | ReadTimeoutError \<Rightarrow> Inr (logging_warning ''Failed to read PMS5003'' st)
         | PmsRaises e \<Rightarrow> Inl (Uncaught e)
         | PmsData pm1_0 pm2_5 pm10_0 \<Rightarrow> display_text (variables ! 7) pm1_0 ''ug/m3'' st)"

definition handle_pm25_mode :: "readings \<Rightarrow> state \<Rightarrow> error + state" where
  "handle_pm25_mode rd st =
     (let st = sensor_read Particulates st
      in case r_pms rd of
           SerialTimeoutError \<Rightarrow> Inr (logging_warning ''Failed to read PMS5003'' st)
         | ReadTimeoutError \<Rightarrow> Inr (logging_warning ''Failed to read PMS5003'' st)
         | PmsRaises e \<Rightarrow> Inl (Uncaught e)
         | PmsData pm1_0 pm2_5 pm10_0 \<Rightarrow> display_text (variables ! 8) pm2_5 ''ug/m3'' st)"

definition handle_pm10_mode :: "readings \<Rightarrow> state \<Rightarrow> error + state" where
  "handle_pm10_mode rd st =
     (let st = sensor_read Particulates st
      in case r_pms rd of
           SerialTimeoutError \<Rightarrow> Inr (logging_warning ''Failed to read PMS5003'' st)
         | ReadTimeoutError \<Rightarrow> Inr (logging_warning ''Failed to read PMS5003'' st)
         | PmsRaises e \<Rightarrow> Inl (Uncaught e)
         | PmsData pm1_0 pm2_5 pm10_0 \<Rightarrow> display_text (variables ! 9) pm10_0 ''ug/m3'' st)"

subsection \<open>handle_display_everything_mode\<close>

text \<open>The last statements of the handler, from \<^verbatim>\<open>pms_data = None\<close> on.\<close>

definition everything_particulates :: "readings \<Rightarrow> state \<Rightarrow> error + state" where
  "everything_particulates rd st =
     (let st = sensor_read Particulates st
      in case r_pms rd of
           SerialTimeoutError \<Rightarrow> Inr (logging_warning ''Failed to read PMS5003'' st)
         | ReadTimeoutError \<Rightarrow> Inr (logging_warning ''Failed to read PMS5003'' st)
         | PmsRaises e \<Rightarrow> Inl (Uncaught e)
         | PmsData pm1_0 pm2_5 pm10_0 \<Rightarrow>
             then_do (save_data 7 pm1_0 st) (\<lambda>st.
             then_do (save_data 8 pm2_5 st) (\<lambda>st.
             then_do (save_data 9 pm10_0 st) display_everything)))"

text \<open>
  The statements after the smoothing, in the order of the source, cut where one variable's
  reading ends and the next begins: the temperature (from
  \<^verbatim>\<open>raw_temp = bme280.get_temperature()\<close> on, for the average the smoothing produced), the
  pressure, the humidity, the light, the three gases; the particulates are above.
\<close>

definition everything_temperature :: "real \<Rightarrow> readings \<Rightarrow> state \<Rightarrow> error + state" where
  "everything_temperature avg_cpu_temp rd st =
     (let st = sensor_read Temperature st;
          raw_temp = r_temperature rd;
          raw_data = raw_temp - ((avg_cpu_temp - raw_temp) / factor)
      in then_do (save_data 0 raw_data st) display_everything)"

definition everything_pressure :: "readings \<Rightarrow> state \<Rightarrow> error + state" where
  "everything_pressure rd st =
     then_do (save_data 1 (r_pressure rd) (sensor_read Pressure st)) display_everything"

definition everything_humidity :: "readings \<Rightarrow> state \<Rightarrow> error + state" where
  "everything_humidity rd st = save_data 2 (r_humidity rd) (sensor_read Humidity st)"

definition everything_light :: "readings \<Rightarrow> state \<Rightarrow> error + state" where
  "everything_light rd st =
     then_do (if proximity st < 10
              then save_data 3 (r_lux_page rd) (sensor_read Lux st)
              else save_data 3 1 st) display_everything"

definition everything_gases :: "readings \<Rightarrow> state \<Rightarrow> error + state" where
  "everything_gases rd st =
     (case r_gas rd of (oxidising, reducing, nh3) \<Rightarrow>
        then_do (save_data 4 (oxidising / 1000) (sensor_read Gas st)) (\<lambda>st.
        then_do (save_data 5 (reducing / 1000) st) (\<lambda>st.
        then_do (save_data 6 (nh3 / 1000) st) display_everything)))"

definition everything_after_smoothing :: "real \<Rightarrow> readings \<Rightarrow> state \<Rightarrow> error + state" where
  "everything_after_smoothing avg_cpu_temp rd st =
     then_do (everything_temperature avg_cpu_temp rd st) (\<lambda>st.
     then_do (everything_pressure rd st) (\<lambda>st.
     then_do (everything_humidity rd st) (\<lambda>st.
     then_do (everything_light rd st) (\<lambda>st.
     then_do (everything_gases rd st) (everything_particulates rd)))))"

definition handle_display_everything_mode :: "readings \<Rightarrow> state \<Rightarrow> error + state" where
  "handle_display_everything_mode rd st =
     (let st = sensor_read CpuTemperature st;
          cpu_temp = r_cpu_temperature rd
      in then_do (smooth_cpu_temps local_cpu_temps cpu_temp) (\<lambda>(window, avg_cpu_temp).
           everything_after_smoothing avg_cpu_temp rd st))"

subsection \<open>main_loop\<close>

text \<open>
  The backlight block of an iteration, for the clock reading \<^verbatim>\<open>now\<close>; \<^verbatim>\<open>lux\<close> is the
  global the iteration has just assigned. Subtracting from a timestamp that is
  \<^verbatim>\<open>None\<close> raises.
\<close>

definition update_backlight :: "real \<Rightarrow> state \<Rightarrow> error + state" where
  "update_backlight now st =
     (if lux st \<le> 0 then
        then_do
          (if screen_on st \<and> \<not> dimmed st then
             (case light_off_time st of
                None \<Rightarrow> Inr (st\<lparr>light_off_time := Some now\<rparr>)
              | Some t \<Rightarrow>
                  if now - t > dim_delay
                  then Inr ((set_backlight 0.2 st)\<lparr>dimmed := True\<rparr>)
                  else Inr st)
           else if dimmed st then
             (case light_off_time st of
                None \<Rightarrow> Inl TypeError
              | Some t \<Rightarrow>
                  if now - t > dim_delay + off_delay
                  then Inr ((set_backlight 0 st)
                              \<lparr>screen_on := False, dimmed := False, light_off_time := None\<rparr>)
                  else Inr st)
           else Inr st)
          (\<lambda>st. Inr (st\<lparr>light_on_time := None\<rparr>))
      else if \<not> screen_on st then
        (case light_on_time st of
           None \<Rightarrow> Inr (st\<lparr>light_on_time := Some now\<rparr>)
         | Some t \<Rightarrow>
             if now - t > on_delay
             then Inr ((set_backlight 1 st)\<lparr>screen_on := True, light_on_time := None\<rparr>)
             else Inr st)
      else if dimmed st then
        Inr ((set_backlight 1 st)\<lparr>dimmed := False, light_off_time := None\<rparr>)
      else Inr (st\<lparr>light_off_time := None\<rparr>))"

text \<open>
  The page block: the clock is read once for the test and once more for
  \<^verbatim>\<open>last_page\<close>.
\<close>

definition update_page :: "real \<Rightarrow> real \<Rightarrow> state \<Rightarrow> state" where
  "update_page time_check time_set st =
     (if proximity st > 1500 \<and> time_check - last_page st > delay
      then st\<lparr>mode := (mode st + 1) mod (int (length variables) + 1), last_page := time_set\<rparr>
      else st)"

text \<open>The \<^verbatim>\<open>match\<close> statement; a mode with no case runs no handler.\<close>

definition dispatch :: "readings \<Rightarrow> state \<Rightarrow> error + state" where
  "dispatch rd st =
     (if mode st = 10 then handle_display_everything_mode rd st
      else if mode st = 0 then handle_temperature_mode rd st
      else if mode st = 1 then handle_pressure_mode rd st
      else if mode st = 2 then handle_humidity_mode rd st
      else if mode st = 3 then handle_light_mode rd st
      else if mode st = 4 then handle_oxidised_mode rd st
      else if mode st = 5 then handle_reduced_mode rd st
      else if mode st = 6 then handle_nh3_mode rd st
      else if mode st = 7 then handle_pm1_mode rd st
      else if mode st = 8 then handle_pm25_mode rd st
      else if mode st = 9 then handle_pm10_mode rd st
      else Inr st)"

text \<open>The body of the \<^verbatim>\<open>while True\<close> loop.\<close>

definition iteration :: "readings \<Rightarrow> state \<Rightarrow> error + state" where
  "iteration rd st =
     (let st = (sensor_read Proximity st)\<lparr>proximity := r_proximity rd\<rparr>;
          st = (sensor_read Lux st)\<lparr>lux := r_lux rd\<rparr>
      in then_do (update_backlight (r_now rd) st) (\<lambda>st.
           dispatch rd (update_page (r_time_check rd) (r_time_set rd) st)))"

text \<open>
  What happens to the loop, one entry per pass: the readings of an iteration, or the
  interrupt that the \<^verbatim>\<open>except\<close> clause turns into \<^verbatim>\<open>sys.exit(0)\<close>. The loop has no
  other exit, so a run is given by the list of its first passes.
\<close>

datatype pass = Iteration readings | KeyboardInterrupt

fun main_loop :: "pass list \<Rightarrow> state \<Rightarrow> error + state" where
  "main_loop [] st = Inr st"
| "main_loop (KeyboardInterrupt # ps) st = Inl (SystemExit 0)"
| "main_loop (Iteration rd # ps) st = then_do (iteration rd st) (main_loop ps)"

definition main :: "int \<Rightarrow> int \<Rightarrow> real \<Rightarrow> pass list \<Rightarrow> error + state" where
  "main w h t ps = main_loop ps (setup_program w h t)"

subsection \<open>Runs of one block of the loop\<close>

text \<open>The backlight block over successive iterations, given each one's lux and clock.\<close>

fun backlight_ticks :: "(real \<times> real) list \<Rightarrow> state \<Rightarrow> error + state" where
  "backlight_ticks [] st = Inr st"
| "backlight_ticks ((l, now) # ts) st =
     then_do (update_backlight now (st\<lparr>lux := l\<rparr>)) (backlight_ticks ts)"

text \<open>
  The page block over successive iterations, given each one's proximity and its two
  clock readings; and the mode after each of them.
\<close>

fun page_ticks :: "(real \<times> real \<times> real) list \<Rightarrow> state \<Rightarrow> state" where
  "page_ticks [] st = st"
| "page_ticks ((p, time_check, time_set) # ts) st =
     page_ticks ts (update_page time_check time_set (st\<lparr>proximity := p\<rparr>))"

fun page_modes :: "(real \<times> real \<times> real) list \<Rightarrow> state \<Rightarrow> int list" where
  "page_modes [] st = []"
| "page_modes ((p, time_check, time_set) # ts) st =
     mode (update_page time_check time_set (st\<lparr>proximity := p\<rparr>))
       # page_modes ts (update_page time_check time_set (st\<lparr>proximity := p\<rparr>))"

text \<open>
  The controller as the three states it moves through, with the timestamp of the onset
  of darkness and the trace.
\<close>

datatype backlight_state = On | Dimmed | Off

definition controller :: "state \<Rightarrow> backlight_state \<times> real option \<times> event list" where
  "controller st =
     (if screen_on st then (if dimmed st then Dimmed else On) else Off,
      light_off_time st, out st)"

subsection \<open>Reading the state and the trace\<close>

text \<open>Every variable has a history with a last sample: what the grid page reads.\<close>

definition buffers_ready :: "state \<Rightarrow> bool" where
  "buffers_ready st =
     list_all (\<lambda>v. case values_dict st v of None \<Rightarrow> False | Some buf \<Rightarrow> buf \<noteq> []) variables"

text \<open>The frames handed to the display, oldest first.\<close>

fun frames :: "event list \<Rightarrow> draw_op list list" where
  "frames [] = []"
| "frames (Display f # es) = f # frames es"
| "frames (e # es) = frames es"

text \<open>The histories of the three particulate variables.\<close>

definition pm_histories :: "state \<Rightarrow> real list option list" where
  "pm_histories st = map (values_dict st) [''pm1'', ''pm25'', ''pm10'']"

section \<open>Properties\<close>

subsection \<open>Severity of a reading\<close>

lemma upt_4: "[0..<4] = [0, 1, 2, 3]"
  by (simp add: upt_rec)

lemma length_4_cases:
  assumes "length (xs :: 'a list) = 4"
  obtains a b c d where "xs = [a, b, c, d]"
proof -
  from assms obtain a b c d where "xs = [a, b, c, d]"
    by (auto simp: length_Suc_conv numeral_eq_Suc)
  then show ?thesis by (rule that)
qed

text \<open>
  Claim C1. For four limits in ascending order, the colour a grid cell gets is the
  palette entry whose index is the number of limits the value exceeds, an index from 0
  to 4. With the limits 4, 18, 28, 35 the value 20 gets index 2, the value 40 index 4 and
  the value 2 index 0.
\<close>

theorem severity_colour_counts:
  assumes "sorted lims" and "length lims = 4"
  shows "severity_colour v lims = Inr (palette ! length (filter (\<lambda>t. v > t) lims))
       \<and> length (filter (\<lambda>t. v > t) lims) \<le> 4
       \<and> severity_colour 20 [4, 18, 28, 35] = Inr (palette ! 2)
       \<and> severity_colour 40 [4, 18, 28, 35] = Inr (palette ! 4)
       \<and> severity_colour 2 [4, 18, 28, 35] = Inr (palette ! 0)"
proof -
  from assms(2) obtain a b c d where l: "lims = [a, b, c, d]"
    by (rule length_4_cases)
  from assms(1) l have ord: "a \<le> b" "b \<le> c" "c \<le> d"
    by simp_all
  have "severity_colour v [a, b, c, d] = Inr (palette ! length (filter (\<lambda>t. v > t) [a, b, c, d]))"
    using ord by (simp add: severity_colour_def upt_4 palette_def)
  moreover have "length (filter (\<lambda>t. v > t) lims) \<le> 4"
    using assms(2) length_filter_le [of "\<lambda>t. v > t" lims] by simp
  moreover have "severity_colour 20 [4, 18, 28, 35] = Inr (palette ! 2)"
    by (simp add: severity_colour_def upt_4 palette_def)
  moreover have "severity_colour 40 [4, 18, 28, 35] = Inr (palette ! 4)"
    by (simp add: severity_colour_def upt_4 palette_def)
  moreover have "severity_colour 2 [4, 18, 28, 35] = Inr (palette ! 0)"
    by (simp add: severity_colour_def upt_4 palette_def)
  ultimately show ?thesis using l by simp
qed

theorem severity_colour_counts_witness:
  "sorted (limits ! 0) \<and> length (limits ! 0) = 4
   \<and> severity_colour 20 (limits ! 0) = Inr (0, 255, 0)"
proof -
  have s: "sorted (limits ! 0)" and n: "length (limits ! 0) = 4"
    by (simp_all add: limits_def)
  from severity_colour_counts [OF s n, of 20] show ?thesis
    using s n by (simp add: limits_def palette_def)
qed

subsection \<open>The backlight controller\<close>

lemma backlight_ticks_append:
  "backlight_ticks (xs @ ys) st = then_do (backlight_ticks xs st) (backlight_ticks ys)"
  by (induction xs arbitrary: st) (auto simp: then_do_def split: sum.splits)

lemma first_dark_tick:
  assumes "screen_on st" "\<not> dimmed st" "light_off_time st = None" "l \<le> 0"
  shows "\<exists>s. update_backlight now (st\<lparr>lux := l\<rparr>) = Inr s \<and> screen_on s \<and> \<not> dimmed s
           \<and> light_off_time s = Some now \<and> out s = out st"
  using assms by (simp add: update_backlight_def then_do_def)

lemma dark_tick_on:
  assumes "screen_on st" "\<not> dimmed st" "light_off_time st = Some t0" "l \<le> 0"
  shows "\<exists>s. update_backlight now (st\<lparr>lux := l\<rparr>) = Inr s \<and> screen_on s
           \<and> light_off_time s = Some t0
           \<and> (if now - t0 > 2 then dimmed s \<and> out s = out st @ [Backlight 0.2]
               else \<not> dimmed s \<and> out s = out st)"
  using assms by (simp add: update_backlight_def then_do_def dim_delay_def set_backlight_def)

lemma dark_tick_dimmed:
  assumes "screen_on st" "dimmed st" "light_off_time st = Some t0" "l \<le> 0"
  shows "\<exists>s. update_backlight now (st\<lparr>lux := l\<rparr>) = Inr s
           \<and> (if now - t0 > 6
               then \<not> screen_on s \<and> \<not> dimmed s \<and> light_off_time s = None
                      \<and> out s = out st @ [Backlight 0]
               else screen_on s \<and> dimmed s \<and> light_off_time s = Some t0 \<and> out s = out st)"
  using assms
  by (simp add: update_backlight_def then_do_def dim_delay_def off_delay_def set_backlight_def)

lemma dark_wait_on:
  assumes "screen_on st" "\<not> dimmed st" "light_off_time st = Some t0"
    and "\<forall>(l, t) \<in> set ts. l \<le> 0 \<and> t - t0 \<le> 2"
  shows "\<exists>s. backlight_ticks ts st = Inr s \<and> screen_on s \<and> \<not> dimmed s
           \<and> light_off_time s = Some t0 \<and> out s = out st"
  using assms
proof (induction ts arbitrary: st)
  case Nil
  then show ?case by simp
next
  case (Cons a ts)
  obtain l t where a: "a = (l, t)" by (cases a)
  from Cons.prems(4) a have l: "l \<le> 0" and t: "\<not> t - t0 > 2" by auto
  from dark_tick_on [OF Cons.prems(1-3) l, of t] t
  obtain s where s: "update_backlight t (st\<lparr>lux := l\<rparr>) = Inr s" "screen_on s" "\<not> dimmed s"
      "light_off_time s = Some t0" "out s = out st"
    by auto
  from Cons.prems(4) have "\<forall>(l, t) \<in> set ts. l \<le> 0 \<and> t - t0 \<le> 2" by simp
  from Cons.IH [OF s(2-4) this] s(1,5) a show ?case
    by (auto simp: then_do_def)
qed

lemma dark_wait_dimmed:
  assumes "screen_on st" "dimmed st" "light_off_time st = Some t0"
    and "\<forall>(l, t) \<in> set ts. l \<le> 0 \<and> t - t0 \<le> 6"
  shows "\<exists>s. backlight_ticks ts st = Inr s \<and> screen_on s \<and> dimmed s
           \<and> light_off_time s = Some t0 \<and> out s = out st"
  using assms
proof (induction ts arbitrary: st)
  case Nil
  then show ?case by simp
next
  case (Cons a ts)
  obtain l t where a: "a = (l, t)" by (cases a)
  from Cons.prems(4) a have l: "l \<le> 0" and t: "\<not> t - t0 > 6" by auto
  from dark_tick_dimmed [OF Cons.prems(1-3) l, of t] t
  obtain s where s: "update_backlight t (st\<lparr>lux := l\<rparr>) = Inr s" "screen_on s" "dimmed s"
      "light_off_time s = Some t0" "out s = out st"
    by auto
  from Cons.prems(4) have "\<forall>(l, t) \<in> set ts. l \<le> 0 \<and> t - t0 \<le> 6" by simp
  from Cons.IH [OF s(2-4) this] s(1,5) a show ?case
    by (auto simp: then_do_def)
qed

text \<open>
  Claim C2. Take any run of dark iterations (lux at most 0) that starts with the screen on,
  not dimmed and no onset recorded. The first one records its clock reading as the onset
  and changes nothing else. While the time since the onset is at most 2 seconds the
  controller stays on and sends nothing. At the first later iteration where it exceeds 2
  seconds the controller sends the backlight level 0.2 and is dimmed, keeping the onset.
  It then stays dimmed until the first iteration after that one where the time since the
  same onset exceeds 6 seconds; there it sends the level 0, is off and clears the onset.
  So dark iterations at 0, 1 and 3 seconds dim at 3 seconds and not at 1.
\<close>

theorem backlight_dark_episode:
  assumes "screen_on st" and "\<not> dimmed st" and "light_off_time st = None"
    and "l0 \<le> 0" and "li \<le> 0" and "lj \<le> 0"
    and "\<forall>(l, t) \<in> set waiting. l \<le> 0 \<and> t - t0 \<le> 2"
    and "ti - t0 > 2"
    and "\<forall>(l, t) \<in> set dimming. l \<le> 0 \<and> t - t0 \<le> 6"
    and "tj - t0 > 6"
  shows "map_sum id controller (backlight_ticks ((l0, t0) # waiting) st)
           = Inr (On, Some t0, out st)
       \<and> map_sum id controller
            (backlight_ticks ((l0, t0) # waiting @ (li, ti) # dimming) st)
           = Inr (Dimmed, Some t0, out st @ [Backlight 0.2])
       \<and> map_sum id controller
            (backlight_ticks ((l0, t0) # waiting @ (li, ti) # dimming @ [(lj, tj)]) st)
           = Inr (Off, None, out st @ [Backlight 0.2, Backlight 0])"
proof -
  from first_dark_tick [OF assms(1-4), of t0]
  obtain s1 where s1: "update_backlight t0 (st\<lparr>lux := l0\<rparr>) = Inr s1" "screen_on s1"
      "\<not> dimmed s1" "light_off_time s1 = Some t0" "out s1 = out st"
    by auto
  from dark_wait_on [OF s1(2-4) assms(7)]
  obtain s2 where s2: "backlight_ticks waiting s1 = Inr s2" "screen_on s2" "\<not> dimmed s2"
      "light_off_time s2 = Some t0" "out s2 = out s1"
    by auto
  from dark_tick_on [OF s2(2-4) assms(5), of ti] assms(8)
  obtain s3 where s3: "update_backlight ti (s2\<lparr>lux := li\<rparr>) = Inr s3" "screen_on s3"
      "dimmed s3" "light_off_time s3 = Some t0" "out s3 = out s2 @ [Backlight 0.2]"
    by auto
  from dark_wait_dimmed [OF s3(2-4) assms(9)]
  obtain s4 where s4: "backlight_ticks dimming s3 = Inr s4" "screen_on s4" "dimmed s4"
      "light_off_time s4 = Some t0" "out s4 = out s3"
    by auto
  from dark_tick_dimmed [OF s4(2-4) assms(6), of tj] assms(10)
  obtain s5 where s5: "update_backlight tj (s4\<lparr>lux := lj\<rparr>) = Inr s5" "\<not> screen_on s5"
      "\<not> dimmed s5" "light_off_time s5 = None" "out s5 = out s4 @ [Backlight 0]"
    by auto
  have a: "backlight_ticks ((l0, t0) # waiting) st = Inr s2"
    using s1(1) s2(1) by (simp add: then_do_def)
  have b: "backlight_ticks ((l0, t0) # waiting @ (li, ti) # dimming) st = Inr s4"
    using s1(1) s2(1) s3(1) s4(1) by (simp add: backlight_ticks_append then_do_def)
  have c: "backlight_ticks ((l0, t0) # waiting @ (li, ti) # dimming @ [(lj, tj)]) st = Inr s5"
    using s1(1) s2(1) s3(1) s4(1) s5(1) by (simp add: backlight_ticks_append then_do_def)
  show ?thesis
    unfolding a b c
    using s1 s2 s3 s4 s5 by (simp add: controller_def)
qed

theorem backlight_dark_episode_witness:
  "map_sum id controller (backlight_ticks [(0, 0), (0, 1)] (setup_program 160 80 0))
     = Inr (On, Some 0, [])
   \<and> map_sum id controller
       (backlight_ticks [(0, 0), (0, 1), (0, 3), (0, 5)] (setup_program 160 80 0))
     = Inr (Dimmed, Some 0, [Backlight 0.2])
   \<and> map_sum id controller
       (backlight_ticks [(0, 0), (0, 1), (0, 3), (0, 5), (0, 7)] (setup_program 160 80 0))
     = Inr (Off, None, [Backlight 0.2, Backlight 0])"
  using backlight_dark_episode [of "setup_program 160 80 0" 0 0 0 "[(0, 1)]" 0 3 "[(0, 5)]" 7]
  by (simp add: setup_program_def)

subsection \<open>The page controller\<close>

lemma length_variables: "length variables = 10"
  by (simp add: variables_def)

lemma update_page_mode:
  "mode (update_page c s st) =
     (if proximity st > 1500 \<and> c - last_page st > 1/2 then (mode st + 1) mod 11 else mode st)"
  by (simp add: update_page_def delay_def length_variables)

lemma update_page_last_page:
  "last_page (update_page c s st) =
     (if proximity st > 1500 \<and> c - last_page st > 1/2 then s else last_page st)"
  by (simp add: update_page_def delay_def)

lemma update_page_in_range:
  "0 \<le> mode st \<Longrightarrow> mode st \<le> 10 \<Longrightarrow>
     0 \<le> mode (update_page c s st) \<and> mode (update_page c s st) \<le> 10"
proof -
  have "0 \<le> (mode st + 1) mod 11 \<and> (mode st + 1) mod 11 \<le> 10"
    by presburger
  then show "0 \<le> mode st \<Longrightarrow> mode st \<le> 10 \<Longrightarrow> ?thesis"
    by (simp add: update_page_mode)
qed

lemma page_modes_in_range:
  "0 \<le> mode st \<Longrightarrow> mode st \<le> 10 \<Longrightarrow> \<forall>m \<in> set (page_modes ts st). 0 \<le> m \<and> m \<le> 10"
proof (induction ts arbitrary: st)
  case Nil
  then show ?case by simp
next
  case (Cons a ts)
  obtain p c s where a: "a = (p, c, s)" by (cases a)
  let ?st = "update_page c s (st\<lparr>proximity := p\<rparr>)"
  from Cons.prems have r: "0 \<le> mode ?st" "mode ?st \<le> 10"
    using update_page_in_range [of "st\<lparr>proximity := p\<rparr>" c s] by simp_all
  from Cons.IH [OF r] r a show ?case by simp
qed

lemma last_page_page_ticks:
  "t \<le> last_page st \<Longrightarrow> \<forall>(p, c, s) \<in> set ts. t \<le> s \<Longrightarrow> t \<le> last_page (page_ticks ts st)"
proof (induction ts arbitrary: st)
  case Nil
  then show ?case by simp
next
  case (Cons a ts)
  obtain p c s where a: "a = (p, c, s)" by (cases a)
  from Cons.prems a have "t \<le> last_page (update_page c s (st\<lparr>proximity := p\<rparr>))"
    by (simp add: update_page_last_page)
  moreover from Cons.prems(2) have "\<forall>(p, c, s) \<in> set ts. t \<le> s" by simp
  ultimately show ?case using Cons.IH a by simp
qed

lemma sustained_proximity:
  "page_modes
     [(2000, 0.1, 0.1), (2000, 0.2, 0.2), (2000, 0.3, 0.3), (2000, 0.4, 0.4),
      (2000, 0.5, 0.5), (2000, 0.6, 0.6), (2000, 0.7, 0.7), (2000, 0.8, 0.8),
      (2000, 0.9, 0.9), (2000, 1.0, 1.0), (2000, 1.1, 1.1), (2000, 1.2, 1.2)]
     (setup_program w h 0)
   = [0, 0, 0, 0, 0, 1, 1, 1, 1, 1, 1, 2]"
  by (simp add: setup_program_def update_page_def delay_def length_variables)

text \<open>
  Claim C3. The page block sets the mode to its successor modulo 11 exactly when the
  proximity exceeds 1500 and more than 0.5 seconds have passed since \<open>last_page\<close>,
  and leaves it unchanged otherwise; a mode between 0 and 10 stays there over any run;
  with a clock that does not go back, two iterations that both advance the mode are more
  than 0.5 seconds apart; and with proximity 2000 at every 0.1 seconds, starting 0.1
  seconds after \<open>last_page\<close>, the mode advances at the sixth and the twelfth iteration
  only.
\<close>

theorem page_advance_debounced:
  assumes "0 \<le> mode st" and "mode st \<le> 10"
    and "\<forall>(p, c, s) \<in> set mid. s1 \<le> s"
  shows "mode (update_page c0 s0 st) =
           (if proximity st > 1500 \<and> c0 - last_page st > 0.5
            then (mode st + 1) mod 11 else mode st)
       \<and> ((mode (update_page c0 s0 st) = (mode st + 1) mod 11)
            = (proximity st > 1500 \<and> c0 - last_page st > 0.5))
       \<and> (\<forall>m \<in> set (page_modes ts st). 0 \<le> m \<and> m \<le> 10)
       \<and> (let sa = update_page c1 s1 (st\<lparr>proximity := p1\<rparr>);
               sb = page_ticks mid sa;
               sc = update_page c2 s2 (sb\<lparr>proximity := p2\<rparr>)
           in mode sa \<noteq> mode st \<and> mode sc \<noteq> mode sb \<longrightarrow> c2 - s1 > 0.5)
       \<and> page_modes
            [(2000, 0.1, 0.1), (2000, 0.2, 0.2), (2000, 0.3, 0.3), (2000, 0.4, 0.4),
             (2000, 0.5, 0.5), (2000, 0.6, 0.6), (2000, 0.7, 0.7), (2000, 0.8, 0.8),
             (2000, 0.9, 0.9), (2000, 1.0, 1.0), (2000, 1.1, 1.1), (2000, 1.2, 1.2)]
            (setup_program w h 0)
          = [0, 0, 0, 0, 0, 1, 1, 1, 1, 1, 1, 2]"
proof -
  have a: "mode (update_page c0 s0 st) =
           (if proximity st > 1500 \<and> c0 - last_page st > 0.5
            then (mode st + 1) mod 11 else mode st)"
    by (simp add: update_page_mode)
  have "(mode st + 1) mod 11 \<noteq> mode st"
    using assms(1,2) by presburger
  with a have b: "(mode (update_page c0 s0 st) = (mode st + 1) mod 11)
            = (proximity st > 1500 \<and> c0 - last_page st > 0.5)"
    by auto
  have d: "c2 - s1 > 0.5"
    if adv1: "mode (update_page c1 s1 (st\<lparr>proximity := p1\<rparr>)) \<noteq> mode st"
      and adv2: "mode (update_page c2 s2 ((page_ticks mid (update_page c1 s1 (st\<lparr>proximity := p1\<rparr>)))\<lparr>proximity := p2\<rparr>))
                  \<noteq> mode (page_ticks mid (update_page c1 s1 (st\<lparr>proximity := p1\<rparr>)))"
  proof -
    let ?sa = "update_page c1 s1 (st\<lparr>proximity := p1\<rparr>)"
    let ?sb = "page_ticks mid ?sa"
    from adv1 have "last_page ?sa = s1"
      by (simp add: update_page_mode update_page_last_page split: if_splits)
    then have "s1 \<le> last_page ?sb"
      using last_page_page_ticks [of s1 ?sa mid] assms(3) by simp
    moreover from adv2 have "c2 - last_page ?sb > 1/2"
      by (simp add: update_page_mode split: if_splits)
    ultimately show ?thesis by simp
  qed
  show ?thesis
    using a b page_modes_in_range [OF assms(1,2), of ts] d sustained_proximity [of w h]
    by (simp add: Let_def)
qed

theorem page_advance_debounced_witness:
  "(let st = setup_program 160 80 0;
        sa = update_page 0.6 0.6 (st\<lparr>proximity := 2000\<rparr>);
        sb = page_ticks [(2000, 0.7, 0.7), (2000, 0.8, 0.8), (2000, 0.9, 0.9),
                         (2000, 1.0, 1.0), (2000, 1.1, 1.1)] sa;
        sc = update_page 1.2 1.2 (sb\<lparr>proximity := 2000\<rparr>)
    in 0 \<le> mode st \<and> mode st \<le> 10 \<and> mode sa \<noteq> mode st \<and> mode sc \<noteq> mode sb)
   \<and> (1.2 :: real) - 0.6 > 0.5"
proof -
  let ?st = "setup_program 160 80 0"
  let ?mid = "[(2000, 0.7, 0.7), (2000, 0.8, 0.8), (2000, 0.9, 0.9),
               (2000, 1.0, 1.0), (2000, 1.1, 1.1)] :: (real \<times> real \<times> real) list"
  have r: "0 \<le> mode ?st" "mode ?st \<le> 10"
    by (simp_all add: setup_program_def)
  have m: "\<forall>(p, c, s) \<in> set ?mid. (0.6 :: real) \<le> s"
    by simp
  have adv: "let sa = update_page 0.6 0.6 (?st\<lparr>proximity := 2000\<rparr>);
        sb = page_ticks ?mid sa;
        sc = update_page 1.2 1.2 (sb\<lparr>proximity := 2000\<rparr>)
    in mode sa \<noteq> mode ?st \<and> mode sc \<noteq> mode sb"
    by (simp add: setup_program_def update_page_def delay_def length_variables)
  from page_advance_debounced [OF r m, where ?c0.0 = 0 and ?s0.0 = 0 and ts = "[]" and ?c1.0 = "0.6"
      and ?p1.0 = 2000 and ?c2.0 = "1.2" and ?s2.0 = "1.2" and ?p2.0 = 2000 and w = 160 and h = 80] adv r
  show ?thesis by (simp add: Let_def)
qed

subsection \<open>The smoothing of the CPU temperature\<close>

text \<open>
  Run where the name is bound to the window of \<^verbatim>\<open>setup_state\<close>, the two smoothing
  statements fed a constant \<open>k\<close> give the averages \<open>k/5\<close>, \<open>2k/5\<close>, \<open>3k/5\<close>, \<open>4k/5\<close>
  and \<open>k\<close>.
\<close>

lemma smooth_cpu_temps_bound:
  "smooth_cpu_temps (Some (cpu_temps (setup_program w h t))) k = Inr ([0, 0, 0, 0, k], k / 5)
   \<and> smooth_cpu_temps (Some [0, 0, 0, 0, k]) k = Inr ([0, 0, 0, k, k], 2 * k / 5)
   \<and> smooth_cpu_temps (Some [0, 0, 0, k, k]) k = Inr ([0, 0, k, k, k], 3 * k / 5)
   \<and> smooth_cpu_temps (Some [0, 0, k, k, k]) k = Inr ([0, k, k, k, k], 4 * k / 5)
   \<and> smooth_cpu_temps (Some [0, k, k, k, k]) k = Inr ([k, k, k, k, k], k)"
  by (simp add: smooth_cpu_temps_def setup_program_def then_do_def py_truediv_def numeral_eq_Suc)

text \<open>
  Claim C4 (the code departs from it). In the two handlers that smooth, the name is a
  local that nothing has bound when it is read: both raise \<^verbatim>\<open>UnboundLocalError\<close>
  at the smoothing statement, whatever the readings and the state, so no average is ever
  produced and the window of \<^verbatim>\<open>setup_state\<close> is never read or updated.
\<close>

theorem smoothing_handlers_raise:
  "handle_temperature_mode rd st = Inl (UnboundLocalError ''cpu_temps'')
   \<and> handle_display_everything_mode rd st = Inl (UnboundLocalError ''cpu_temps'')"
  by (simp add: handle_temperature_mode_def handle_display_everything_mode_def
      smooth_cpu_temps_def local_cpu_temps_def then_do_def)

subsection \<open>The histories at startup\<close>

text \<open>
  Claim C6 (the code departs from it). \<^verbatim>\<open>setup_variables\<close> leaves the dictionary of
  histories empty and nothing else creates an entry, so after \<^verbatim>\<open>setup\<close> the first
  record or render of any variable raises \<^verbatim>\<open>KeyError\<close>.
\<close>

theorem first_render_raises:
  "display_text variable data unit (setup_program w h t) = Inl (KeyError variable)
   \<and> save_data idx data (setup_program w h t)
       = Inl (if idx < 10 then KeyError (variables ! idx) else IndexError)
   \<and> display_everything (setup_program w h t) = Inl (KeyError ''temperature'')
   \<and> handle_pressure_mode rd (setup_program w h t) = Inl (KeyError ''pressure'')"
  by (simp add: display_text_def save_data_def setup_program_def display_everything_def
      draw_rectangle_def draw_cell_def then_do_def variables_def upt_rec
      handle_pressure_mode_def sensor_read_def)

text \<open>
  Together: the first iteration of the loop after \<^verbatim>\<open>setup\<close> ends the program, in mode 0
  by the unbound local and in mode 1 by the missing history.
\<close>

lemma display_text_no_buffer:
  "values_dict st variable = None \<Longrightarrow> display_text variable data unit st = Inl (KeyError variable)"
  by (simp add: display_text_def)

lemma first_iteration_raises:
  "main w h t (Iteration rd # ps) =
     Inl (if r_proximity rd > 1500 \<and> r_time_check rd - t > 0.5
          then KeyError ''pressure'' else UnboundLocalError ''cpu_temps'')"
proof -
  define st1 where "st1 =
    (sensor_read Lux ((sensor_read Proximity (setup_program w h t))
       \<lparr>proximity := r_proximity rd\<rparr>))\<lparr>lux := r_lux rd\<rparr>"
  have "\<exists>s. update_backlight (r_now rd) st1 = Inr s \<and> mode s = 0 \<and> last_page s = t
          \<and> proximity s = r_proximity rd \<and> values_dict s = Map.empty"
    by (simp add: st1_def update_backlight_def then_do_def setup_program_def sensor_read_def)
  then obtain s where s: "update_backlight (r_now rd) st1 = Inr s" "mode s = 0"
      "last_page s = t" "proximity s = r_proximity rd" "values_dict s = Map.empty"
    by blast
  let ?s' = "update_page (r_time_check rd) (r_time_set rd) s"
  have it: "iteration rd (setup_program w h t) = dispatch rd ?s'"
    using s(1) by (simp add: iteration_def st1_def then_do_def Let_def)
  have v: "values_dict ?s' = Map.empty"
    using s(5) by (simp add: update_page_def)
  show ?thesis
  proof (cases "r_proximity rd > 1500 \<and> r_time_check rd - t > 0.5")
    case True
    then have "mode ?s' = 1"
      using s by (simp add: update_page_def delay_def variables_def)
    then have "dispatch rd ?s' = Inl (KeyError ''pressure'')"
      using v by (simp add: dispatch_def handle_pressure_mode_def display_text_no_buffer
          sensor_read_def variables_def)
    with it True show ?thesis by (simp add: main_def then_do_def)
  next
    case False
    then have "mode ?s' = 0"
      using s by (auto simp: update_page_def delay_def)
    then have "dispatch rd ?s' = Inl (UnboundLocalError ''cpu_temps'')"
      by (simp add: dispatch_def handle_temperature_mode_def smooth_cpu_temps_def
          local_cpu_temps_def then_do_def)
    with it False show ?thesis by (simp add: main_def then_do_def)
  qed
qed

subsection \<open>The normalised series of a history\<close>

lemma py_min_Min: "vs \<noteq> [] \<Longrightarrow> py_min vs = Inr (Min (set vs))"
  by (cases vs) (simp_all add: py_min_def Min.set_eq_fold [symmetric])

lemma py_max_Max: "vs \<noteq> [] \<Longrightarrow> py_max vs = Inr (Max (set vs))"
  by (cases vs) (simp_all add: py_max_def Max.set_eq_fold [symmetric])

lemma scale_all_map:
  "vmax - vmin + 1 \<noteq> 0 \<Longrightarrow>
     scale_all vmin vmax vs = Inr (map (\<lambda>v. (v - vmin + 1) / (vmax - vmin + 1)) vs)"
  by (induction vs) (simp_all add: then_do_def py_truediv_def)

lemma Min_le_Max_list: "vs \<noteq> [] \<Longrightarrow> Min (set vs) \<le> Max (set (vs :: real list))"
  by (simp add: Min_le_iff)

lemma colours_map:
  assumes "vs \<noteq> []"
  shows "colours vs =
           Inr (map (\<lambda>v. (v - Min (set vs) + 1) / (Max (set vs) - Min (set vs) + 1)) vs)"
proof -
  from assms have "Max (set vs) - Min (set vs) + 1 \<noteq> 0"
    using Min_le_Max_list [of vs] by linarith
  then show ?thesis
    using assms by (simp add: colours_def then_do_def py_min_Min py_max_Max scale_all_map)
qed

lemma colours_all_equal:
  assumes "vs \<noteq> []" and "Min (set vs) = Max (set vs)"
  shows "colours vs = Inr (replicate (length vs) 1)"
proof -
  have "v = Max (set vs)" if "v \<in> set vs" for v
  proof -
    from that have "Min (set vs) \<le> v" "v \<le> Max (set vs)" by simp_all
    with assms(2) show ?thesis by simp
  qed
  then have "map (\<lambda>v. (v - Min (set vs) + 1) / (Max (set vs) - Min (set vs) + 1)) vs
               = map (\<lambda>v. 1) vs"
    using assms(2) by (intro map_cong) simp_all
  then show ?thesis
    using colours_map [OF assms(1)] by (simp add: map_replicate_const)
qed

text \<open>
  Claim C5. For every history with at least one sample, which is every list the page
  normalises since it has just appended one, the series maps each value \<open>v\<close> to
  \<open>(v - min + 1) / (max - min + 1)\<close>; the divisor is at least 1, so no division by zero is
  raised; when the minimum equals the maximum the series is all ones, as for the history
  10, 10, 10, 10, 10.
\<close>

theorem normalised_series:
  assumes "vs \<noteq> []"
  shows "colours vs =
           Inr (map (\<lambda>v. (v - Min (set vs) + 1) / (Max (set vs) - Min (set vs) + 1)) vs)
       \<and> Max (set vs) - Min (set vs) + 1 \<ge> 1
       \<and> (Min (set vs) = Max (set vs) \<longrightarrow> colours vs = Inr (replicate (length vs) 1))
       \<and> colours (drop 1 buf @ [data]) \<noteq> Inl ZeroDivisionError
       \<and> colours [10, 10, 10, 10, 10] = Inr [1, 1, 1, 1, 1]"
proof -
  have "colours (drop 1 buf @ [data]) \<noteq> Inl ZeroDivisionError"
    using colours_map [of "drop 1 buf @ [data]"] by simp
  moreover have "colours [10, 10, 10, 10, 10] = Inr [1, 1, 1, 1, 1]"
    using colours_all_equal [of "[10, 10, 10, 10, 10]"] by simp
  ultimately show ?thesis
    using colours_map [OF assms] colours_all_equal [OF assms] Min_le_Max_list [OF assms]
    by simp
qed

theorem normalised_series_witness:
  "[3, 1, 2] \<noteq> ([] :: real list) \<and> colours [3, 1, 2] = Inr [1, 1 / 3, 2 / 3]
   \<and> colours [7, 7] = Inr [1, 1]"
proof -
  have n: "[3, 1, 2] \<noteq> ([] :: real list)" "[7, 7] \<noteq> ([] :: real list)" by simp_all
  from normalised_series [OF n(1)] normalised_series [OF n(2)] show ?thesis by simp
qed

subsection \<open>What a page draws and pushes\<close>

text \<open>
  Both pages start by painting the whole canvas, so what they push does not depend on what
  the canvas held; it depends on the size of the display and on the histories only. The
  lemmas below give the state after a page in full.
\<close>

lemma plot_column_only_img:
  "plot_column cs i st = st\<lparr>img := img (plot_column cs i st)\<rparr>"
  by (simp add: plot_column_def draw_rectangle_def Let_def split: prod.splits)

lemma fold_plot_column_only_img:
  "fold (plot_column cs) is st = st\<lparr>img := img (fold (plot_column cs) is st)\<rparr>"
proof (induction "is" arbitrary: st)
  case Nil
  show ?case by simp
next
  case (Cons i "is")
  have "fold (plot_column cs) (i # is) st = fold (plot_column cs) is (plot_column cs i st)"
    by simp
  also have "\<dots> = (plot_column cs i st)\<lparr>img := img (fold (plot_column cs) is (plot_column cs i st))\<rparr>"
    by (rule Cons.IH)
  also have "\<dots> = st\<lparr>img := img (fold (plot_column cs) is (plot_column cs i st))\<rparr>"
    by (subst plot_column_only_img) simp
  finally show ?case by simp
qed

lemma covers_canvas_cong:
  "WIDTH st' = WIDTH st \<Longrightarrow> HEIGHT st' = HEIGHT st \<Longrightarrow> covers_canvas st' b = covers_canvas st b"
  by (simp add: covers_canvas_def)

lemma draw_rectangle_img_cong:
  assumes "WIDTH st' = WIDTH st" "HEIGHT st' = HEIGHT st" "img st' = img st"
  shows "img (draw_rectangle b c st') = img (draw_rectangle b c st)"
  using assms covers_canvas_cong [OF assms(1,2), of b] by (simp add: draw_rectangle_def)

lemma draw_rectangle_size:
  "WIDTH (draw_rectangle b c st) = WIDTH st \<and> HEIGHT (draw_rectangle b c st) = HEIGHT st"
  by (simp add: draw_rectangle_def)

lemma plot_column_img_cong:
  assumes "WIDTH st' = WIDTH st" "HEIGHT st' = HEIGHT st" "img st' = img st"
  shows "img (plot_column cs i st') = img (plot_column cs i st)"
proof -
  have "img (draw_rectangle b2 c2 (draw_rectangle b1 c1 st'))
          = img (draw_rectangle b2 c2 (draw_rectangle b1 c1 st))" for b1 c1 b2 c2
    using assms
    by (intro draw_rectangle_img_cong) (simp_all add: draw_rectangle_size)
  then show ?thesis
    using assms(2) by (simp add: plot_column_def Let_def draw_rectangle_size split: prod.splits)
qed

lemma fold_plot_column_img_cong:
  assumes "WIDTH st' = WIDTH st" "HEIGHT st' = HEIGHT st" "img st' = img st"
  shows "img (fold (plot_column cs) is st') = img (fold (plot_column cs) is st)"
  using assms
proof (induction "is" arbitrary: st st')
  case Nil
  then show ?case by simp
next
  case (Cons i "is")
  have w: "WIDTH (plot_column cs i st') = WIDTH (plot_column cs i st)"
    and h: "HEIGHT (plot_column cs i st') = HEIGHT (plot_column cs i st)"
    using Cons.prems
    by (subst plot_column_only_img, subst (2) plot_column_only_img, simp)+
  have g: "img (plot_column cs i st') = img (plot_column cs i st)"
    using Cons.prems by (rule plot_column_img_cong)
  from Cons.IH [OF w h g] show ?case by simp
qed

lemma colours_total: "vs \<noteq> [] \<Longrightarrow> \<exists>cs. colours vs = Inr cs"
  using colours_map by blast

lemma full_rectangle_covers:
  "covers_canvas st (0, 0, real_of_int (WIDTH st), real_of_int (HEIGHT st))"
  by (simp add: covers_canvas_def)

lemma display_text_result:
  assumes "values_dict st variable = Some buf"
  shows "\<exists>cs. colours (drop 1 buf @ [data]) = Inr cs
    \<and> display_text variable data unit st =
        Inr (st\<lparr>values_dict := (values_dict st)(variable \<mapsto> drop 1 buf @ [data]),
              out := out st @ [Info (Message (take 4 variable) data unit),
                Display (img (fold (plot_column cs) [0..<length cs]
                           (st\<lparr>img := [Rectangle (0, 0, real_of_int (WIDTH st), real_of_int (HEIGHT st))
                                              (255, 255, 255)]\<rparr>))
                      @ [Text (0, 0) (Message (take 4 variable) data unit) font (0, 0, 0)])],
              img := img (fold (plot_column cs) [0..<length cs]
                           (st\<lparr>img := [Rectangle (0, 0, real_of_int (WIDTH st), real_of_int (HEIGHT st))
                                              (255, 255, 255)]\<rparr>))
                      @ [Text (0, 0) (Message (take 4 variable) data unit) font (0, 0, 0)]\<rparr>)"
proof -
  obtain cs where cs: "colours (drop 1 buf @ [data]) = Inr cs"
    using colours_total [of "drop 1 buf @ [data]"] by auto
  define white where "white = [Rectangle (0, 0, real_of_int (WIDTH st), real_of_int (HEIGHT st))
                                  (255 :: int, 255 :: int, 255 :: int)]"
  define msg where "msg = Message (take 4 variable) data unit"
  define X where "X = st\<lparr>values_dict := (values_dict st)(variable \<mapsto> drop 1 buf @ [data]),
      out := out st @ [Info msg], img := white\<rparr>"
  define g where "g = img (fold (plot_column cs) [0..<length cs] (st\<lparr>img := white\<rparr>))"
  have "img (fold (plot_column cs) [0..<length cs] X) = g"
    unfolding g_def by (rule fold_plot_column_img_cong) (simp_all add: X_def)
  then have f: "fold (plot_column cs) [0..<length cs] X = X\<lparr>img := g\<rparr>"
    using fold_plot_column_only_img [of cs "[0..<length cs]" X] by simp
  have "display_text variable data unit st =
          Inr (st7735_display (draw_text (0, 0) msg font (0, 0, 0)
                 (fold (plot_column cs) [0..<length cs] X)))"
    using assms cs full_rectangle_covers [of st]
    by (simp add: display_text_def then_do_def Let_def logging_info_def draw_rectangle_def
        covers_canvas_def X_def white_def msg_def)
  then have "display_text variable data unit st =
          Inr (st7735_display (draw_text (0, 0) msg font (0, 0, 0) (X\<lparr>img := g\<rparr>)))"
    by (simp only: f)
  then have "display_text variable data unit st =
      Inr (st\<lparr>values_dict := (values_dict st)(variable \<mapsto> drop 1 buf @ [data]),
          out := out st @ [Info msg, Display (g @ [Text (0, 0) msg font (0, 0, 0)])],
          img := g @ [Text (0, 0) msg font (0, 0, 0)]\<rparr>)"
    by (simp add: st7735_display_def draw_text_def X_def)
  with cs show ?thesis
    unfolding g_def white_def msg_def by blast
qed

lemma draw_cell_transfer:
  assumes "WIDTH st' = WIDTH st" "HEIGHT st' = HEIGHT st" "values_dict st' = values_dict st"
    "img st' = img st"
  shows "draw_cell i st' = map_sum id (\<lambda>s. st'\<lparr>img := img s\<rparr>) (draw_cell i st)"
  using assms
  by (simp add: draw_cell_def draw_text_def Let_def then_do_def split: option.splits sum.splits)

lemma draw_cell_only_img: "draw_cell i st = Inr s \<Longrightarrow> \<exists>g. s = st\<lparr>img := g\<rparr>"
  using draw_cell_transfer [of st st i] by auto

lemma for_each_draw_cell_transfer:
  assumes "WIDTH st' = WIDTH st" "HEIGHT st' = HEIGHT st" "values_dict st' = values_dict st"
    "img st' = img st"
  shows "for_each draw_cell is st' = map_sum id (\<lambda>s. st'\<lparr>img := img s\<rparr>) (for_each draw_cell is st)"
  using assms
proof (induction "is" arbitrary: st st')
  case Nil
  then show ?case by simp
next
  case (Cons i "is")
  note t = draw_cell_transfer [OF Cons.prems, of i]
  show ?case
  proof (cases "draw_cell i st")
    case (Inl e)
    with t show ?thesis by simp
  next
    case (Inr s)
    from draw_cell_only_img [OF Inr] obtain g where s: "s = st\<lparr>img := g\<rparr>" by blast
    have eqs: "WIDTH (st'\<lparr>img := g\<rparr>) = WIDTH s" "HEIGHT (st'\<lparr>img := g\<rparr>) = HEIGHT s"
      "values_dict (st'\<lparr>img := g\<rparr>) = values_dict s" "img (st'\<lparr>img := g\<rparr>) = img s"
      using Cons.prems by (simp_all add: s)
    have t': "draw_cell i st' = Inr (st'\<lparr>img := g\<rparr>)"
      using t Inr by (simp add: s)
    from Cons.IH [OF eqs] have
      "for_each draw_cell is (st'\<lparr>img := g\<rparr>)
         = map_sum id (\<lambda>r. st'\<lparr>img := img r\<rparr>) (for_each draw_cell is s)"
      by (cases "for_each draw_cell is s") simp_all
    with Inr t' show ?thesis by (simp add: id_def)
  qed
qed

lemma for_each_draw_cell_only_img:
  "for_each draw_cell is st = Inr s \<Longrightarrow> \<exists>g. s = st\<lparr>img := g\<rparr>"
  using for_each_draw_cell_transfer [of st st "is"] by auto

lemma display_everything_shape:
  "display_everything st =
     then_do (for_each draw_cell [0..<length variables]
                (st\<lparr>img := [Rectangle (0, 0, real_of_int (WIDTH st), real_of_int (HEIGHT st))
                                 (0, 0, 0)]\<rparr>))
       (\<lambda>s. Inr (st\<lparr>img := img s, out := out st @ [Display (img s)]\<rparr>))"
proof -
  let ?b = "st\<lparr>img := [Rectangle (0, 0, real_of_int (WIDTH st), real_of_int (HEIGHT st))
                                 (0, 0, 0)]\<rparr>"
  have d: "draw_rectangle (0, 0, real_of_int (WIDTH st), real_of_int (HEIGHT st)) (0, 0, 0) st = ?b"
    using full_rectangle_covers [of st] by (simp add: draw_rectangle_def)
  show ?thesis
  proof (cases "for_each draw_cell [0..<length variables] ?b")
    case (Inl e)
    then show ?thesis by (simp add: display_everything_def d then_do_def)
  next
    case (Inr s)
    from for_each_draw_cell_only_img [OF Inr] obtain g where s: "s = st\<lparr>img := g\<rparr>"
      by auto
    have "st7735_display s = st\<lparr>img := img s, out := out st @ [Display (img s)]\<rparr>"
      by (simp add: st7735_display_def s)
    with Inr show ?thesis by (simp add: display_everything_def d then_do_def)
  qed
qed

lemma frames_append: "frames (xs @ ys) = frames xs @ frames ys"
  by (induction xs rule: frames.induct) simp_all

lemma buffers_ready_img: "buffers_ready (st\<lparr>img := g\<rparr>) = buffers_ready st"
  by (simp add: buffers_ready_def)

lemma buffers_ready_out: "buffers_ready (st\<lparr>out := es\<rparr>) = buffers_ready st"
  by (simp add: buffers_ready_def)

lemma buffers_ready_lookup:
  assumes "buffers_ready st" and "i < 10"
  obtains buf where "values_dict st (variables ! i) = Some buf" and "buf \<noteq> []"
proof -
  from assms(2) have "variables ! i \<in> set variables"
    by (simp add: length_variables)
  with assms(1) show ?thesis
    using that by (auto simp: buffers_ready_def list_all_iff split: option.splits)
qed

lemma buffers_ready_update:
  assumes "buffers_ready st" and "vs \<noteq> []"
  shows "buffers_ready (st\<lparr>values_dict := (values_dict st)(k \<mapsto> vs)\<rparr>)"
  using assms by (auto simp: buffers_ready_def list_all_iff split: option.splits)

lemma length_units: "length units = 10"
  by (simp add: units_def)

lemma save_data_result:
  assumes "idx < 10" and "values_dict st (variables ! idx) = Some buf"
  shows "save_data idx data st =
           Inr (st\<lparr>values_dict := (values_dict st)(variables ! idx \<mapsto> drop 1 buf @ [data]),
                  out := out st @ [Info (Message (take 4 (variables ! idx)) data (units ! idx))]\<rparr>)"
  using assms by (simp add: save_data_def length_variables length_units logging_info_def Let_def)

lemma limits_rows: "i < 10 \<Longrightarrow> length (limits ! i) = 4"
proof -
  have "list_all (\<lambda>l. length l = 4) limits" and "length limits = 10"
    by (simp_all add: limits_def)
  then show "i < 10 \<Longrightarrow> length (limits ! i) = 4"
    by (simp add: list_all_length)
qed

lemma severity_colour_total: "length lims = 4 \<Longrightarrow> \<exists>c. severity_colour v lims = Inr c"
proof -
  assume "length lims = 4"
  then obtain a b c d where "lims = [a, b, c, d]" by (rule length_4_cases)
  then show ?thesis
    by (simp add: severity_colour_def upt_4 palette_def)
qed

lemma draw_cell_result:
  assumes "i < 10" and "values_dict st (variables ! i) = Some buf" and "buf \<noteq> []"
  shows "\<exists>xy c. draw_cell i st =
           Inr (st\<lparr>img := img st
                   @ [Text xy (Message (take 4 (variables ! i)) (last buf) (units ! i)) smallfont c]\<rparr>)"
proof -
  from limits_rows [OF assms(1)] obtain c where c: "severity_colour (last buf) (limits ! i) = Inr c"
    using severity_colour_total by blast
  define row_count where "row_count = real (length variables) / real_of_int 2"
  define x where "x = real_of_int x_offset
      + real_of_int (WIDTH st div 2) * real_of_int \<lfloor>real i / row_count\<rfloor>"
  define y where "y = real_of_int y_offset
      + (real_of_int (HEIGHT st) / row_count)
          * (real i - row_count * real_of_int \<lfloor>real i / row_count\<rfloor>)"
  have "draw_cell i st =
          Inr (st\<lparr>img := img st
                 @ [Text (x, y) (Message (take 4 (variables ! i)) (last buf) (units ! i)) smallfont c]\<rparr>)"
    using assms(2,3) c
    unfolding draw_cell_def draw_text_def then_do_def Let_def x_def y_def row_count_def
    by simp
  then show ?thesis by blast
qed

lemma for_each_draw_cell_result:
  assumes "buffers_ready st" and "\<forall>i \<in> set is. i < 10"
  shows "\<exists>ops. for_each draw_cell is st = Inr (st\<lparr>img := img st @ ops\<rparr>)
           \<and> length ops = length is
           \<and> (\<forall>k < length is. \<exists>xy c buf.
                 values_dict st (variables ! (is ! k)) = Some buf
                 \<and> ops ! k = Text xy (Message (take 4 (variables ! (is ! k))) (last buf)
                                        (units ! (is ! k))) smallfont c)"
  using assms
proof (induction "is" arbitrary: st)
  case Nil
  then show ?case by simp
next
  case (Cons i "is")
  from Cons.prems(2) have i: "i < 10" by simp
  from buffers_ready_lookup [OF Cons.prems(1) i]
  obtain buf where buf: "values_dict st (variables ! i) = Some buf" "buf \<noteq> []" .
  from draw_cell_result [OF i buf] obtain xy c where
    d: "draw_cell i st = Inr (st\<lparr>img := img st
          @ [Text xy (Message (take 4 (variables ! i)) (last buf) (units ! i)) smallfont c]\<rparr>)"
    by blast
  let ?op = "Text xy (Message (take 4 (variables ! i)) (last buf) (units ! i)) smallfont c"
  let ?st = "st\<lparr>img := img st @ [?op]\<rparr>"
  have r: "buffers_ready ?st"
    using Cons.prems(1) by (simp add: buffers_ready_img)
  from Cons.prems(2) have "\<forall>i \<in> set is. i < 10" by simp
  from Cons.IH [OF r this] obtain ops where
    ops: "for_each draw_cell is ?st = Inr (?st\<lparr>img := img ?st @ ops\<rparr>)" "length ops = length is"
      "\<forall>k < length is. \<exists>xy c buf.
          values_dict ?st (variables ! (is ! k)) = Some buf
          \<and> ops ! k = Text xy (Message (take 4 (variables ! (is ! k))) (last buf)
                                 (units ! (is ! k))) smallfont c"
    by blast
  have a: "for_each draw_cell (i # is) st = Inr (st\<lparr>img := img st @ (?op # ops)\<rparr>)"
    using d ops(1) by simp
  have b: "\<exists>xy c buf.
        values_dict st (variables ! ((i # is) ! k)) = Some buf
        \<and> (?op # ops) ! k = Text xy (Message (take 4 (variables ! ((i # is) ! k))) (last buf)
                                        (units ! ((i # is) ! k))) smallfont c"
    if "k < length (i # is)" for k
  proof (cases k)
    case 0
    with buf(1) show ?thesis by (cases c) simp
  next
    case (Suc j)
    with that have "j < length is" by simp
    with ops(3) Suc show ?thesis by simp
  qed
  from a b ops(2) show ?case
    by (intro exI [of _ "?op # ops"]) simp
qed

lemma display_everything_result:
  assumes "buffers_ready st"
  shows "\<exists>g. display_everything st = Inr (st\<lparr>img := g, out := out st @ [Display g]\<rparr>)
           \<and> length g = 11
           \<and> (\<forall>k < 10. \<exists>xy c buf.
                 values_dict st (variables ! k) = Some buf
                 \<and> g ! Suc k = Text xy (Message (take 4 (variables ! k)) (last buf) (units ! k))
                                   smallfont c)"
proof -
  let ?b = "st\<lparr>img := [Rectangle (0, 0, real_of_int (WIDTH st), real_of_int (HEIGHT st))
                                 (0, 0, 0)]\<rparr>"
  have r: "buffers_ready ?b"
    using assms by (simp add: buffers_ready_img)
  have "\<forall>i \<in> set [0..<length variables]. i < 10"
    by (simp add: length_variables)
  from for_each_draw_cell_result [OF r this] obtain ops where
    ops: "for_each draw_cell [0..<length variables] ?b = Inr (?b\<lparr>img := img ?b @ ops\<rparr>)"
      "length ops = 10"
      "\<forall>k < 10. \<exists>xy c buf.
          values_dict st (variables ! k) = Some buf
          \<and> ops ! k = Text xy (Message (take 4 (variables ! k)) (last buf) (units ! k)) smallfont c"
    by (auto simp: length_variables)
  from ops(1) have "display_everything st =
      Inr (st\<lparr>img := img ?b @ ops, out := out st @ [Display (img ?b @ ops)]\<rparr>)"
    by (simp add: display_everything_shape then_do_def)
  with ops(2,3) show ?thesis
    by (intro exI [of _ "img ?b @ ops"]) simp
qed

lemma display_text_frame:
  assumes "WIDTH st' = WIDTH st" and "HEIGHT st' = HEIGHT st"
    and "values_dict st variable = Some buf" and "values_dict st' variable = Some buf"
  shows "\<exists>f m s s'. display_text variable data unit st = Inr s
           \<and> display_text variable data unit st' = Inr s'
           \<and> out s = out st @ [Info m, Display f]
           \<and> out s' = out st' @ [Info m, Display f]
           \<and> WIDTH s = WIDTH st \<and> HEIGHT s = HEIGHT st"
proof -
  from display_text_result [OF assms(3), where data = data and unit = unit] obtain cs where
    cs: "colours (drop 1 buf @ [data]) = Inr cs"
    and s: "display_text variable data unit st =
        Inr (st\<lparr>values_dict := (values_dict st)(variable \<mapsto> drop 1 buf @ [data]),
              out := out st @ [Info (Message (take 4 variable) data unit),
                Display (img (fold (plot_column cs) [0..<length cs]
                           (st\<lparr>img := [Rectangle (0, 0, real_of_int (WIDTH st), real_of_int (HEIGHT st))
                                              (255, 255, 255)]\<rparr>))
                      @ [Text (0, 0) (Message (take 4 variable) data unit) font (0, 0, 0)])],
              img := img (fold (plot_column cs) [0..<length cs]
                           (st\<lparr>img := [Rectangle (0, 0, real_of_int (WIDTH st), real_of_int (HEIGHT st))
                                              (255, 255, 255)]\<rparr>))
                      @ [Text (0, 0) (Message (take 4 variable) data unit) font (0, 0, 0)]\<rparr>)"
    by blast
  from display_text_result [OF assms(4), where data = data and unit = unit] cs have
    s': "display_text variable data unit st' =
        Inr (st'\<lparr>values_dict := (values_dict st')(variable \<mapsto> drop 1 buf @ [data]),
              out := out st' @ [Info (Message (take 4 variable) data unit),
                Display (img (fold (plot_column cs) [0..<length cs]
                           (st'\<lparr>img := [Rectangle (0, 0, real_of_int (WIDTH st'), real_of_int (HEIGHT st'))
                                              (255, 255, 255)]\<rparr>))
                      @ [Text (0, 0) (Message (take 4 variable) data unit) font (0, 0, 0)])],
              img := img (fold (plot_column cs) [0..<length cs]
                           (st'\<lparr>img := [Rectangle (0, 0, real_of_int (WIDTH st'), real_of_int (HEIGHT st'))
                                              (255, 255, 255)]\<rparr>))
                      @ [Text (0, 0) (Message (take 4 variable) data unit) font (0, 0, 0)]\<rparr>)"
    by auto
  have "img (fold (plot_column cs) [0..<length cs]
               (st'\<lparr>img := [Rectangle (0, 0, real_of_int (WIDTH st'), real_of_int (HEIGHT st'))
                                  (255, 255, 255)]\<rparr>))
        = img (fold (plot_column cs) [0..<length cs]
               (st\<lparr>img := [Rectangle (0, 0, real_of_int (WIDTH st), real_of_int (HEIGHT st))
                                  (255, 255, 255)]\<rparr>))"
    by (rule fold_plot_column_img_cong) (simp_all add: assms(1,2))
  with s s' show ?thesis by simp
qed

lemma display_text_pushes_same:
  assumes "WIDTH st' = WIDTH st" and "HEIGHT st' = HEIGHT st"
    and "values_dict st' variable = values_dict st variable"
  shows "map_sum id (\<lambda>s. last (frames (out s))) (display_text variable data unit st')
       = map_sum id (\<lambda>s. last (frames (out s))) (display_text variable data unit st)"
proof (cases "values_dict st variable")
  case None
  with assms(3) show ?thesis by (simp add: display_text_no_buffer)
next
  case (Some buf)
  with assms(3) have "values_dict st' variable = Some buf" by simp
  from display_text_frame [OF assms(1,2) Some this, of data unit] show ?thesis
    by (auto simp: frames_append)
qed

lemma display_everything_transfer:
  assumes "WIDTH st' = WIDTH st" and "HEIGHT st' = HEIGHT st"
    and "values_dict st' = values_dict st"
  shows "display_everything st' =
           map_sum id (\<lambda>s. st'\<lparr>img := img s, out := out st' @ [Display (img s)]\<rparr>)
             (display_everything st)"
proof -
  let ?b = "[Rectangle (0, 0, real_of_int (WIDTH st), real_of_int (HEIGHT st)) (0, 0, 0)]"
  have "for_each draw_cell [0..<length variables] (st'\<lparr>img := ?b\<rparr>)
          = map_sum id (\<lambda>s. st'\<lparr>img := ?b, img := img s\<rparr>)
              (for_each draw_cell [0..<length variables] (st\<lparr>img := ?b\<rparr>))"
    by (rule for_each_draw_cell_transfer) (simp_all add: assms)
  then show ?thesis
    by (cases "for_each draw_cell [0..<length variables] (st\<lparr>img := ?b\<rparr>)")
      (simp_all add: display_everything_shape assms(1,2) then_do_def)
qed

lemma display_everything_pushes_same:
  assumes "WIDTH st' = WIDTH st" and "HEIGHT st' = HEIGHT st"
    and "values_dict st' = values_dict st"
  shows "map_sum id (\<lambda>s. last (frames (out s))) (display_everything st')
       = map_sum id (\<lambda>s. last (frames (out s))) (display_everything st)"
proof (cases "display_everything st")
  case (Inl e)
  with display_everything_transfer [OF assms] show ?thesis by simp
next
  case (Inr s)
  from Inr have "out s = out st @ [Display (img s)]"
    by (auto simp: display_everything_shape then_do_def split: sum.splits)
  with Inr display_everything_transfer [OF assms] show ?thesis
    by (simp add: frames_append)
qed

lemma display_everything_twice:
  assumes "display_everything st = Inr s1"
  shows "\<exists>f s2. out s1 = out st @ [Display f] \<and> display_everything s1 = Inr s2
           \<and> out s2 = out s1 @ [Display f]"
proof -
  from assms have "\<exists>g. s1 = st\<lparr>img := g, out := out st @ [Display g]\<rparr>"
    by (auto simp: display_everything_shape then_do_def split: sum.splits)
  then obtain g where s1: "s1 = st\<lparr>img := g, out := out st @ [Display g]\<rparr>"
    by blast
  then have "WIDTH s1 = WIDTH st" "HEIGHT s1 = HEIGHT st" "values_dict s1 = values_dict st"
    by simp_all
  from display_everything_transfer [OF this] assms
  have "display_everything s1 = Inr (s1\<lparr>img := img s1, out := out s1 @ [Display (img s1)]\<rparr>)"
    by simp
  with s1 show ?thesis by simp
qed

lemma display_text_twice:
  assumes "display_text variable data unit st = Inr s1"
  shows "\<exists>m f s2. out s1 = out st @ [Info m, Display f]
           \<and> display_text variable data unit (s1\<lparr>values_dict := values_dict st\<rparr>) = Inr s2
           \<and> out s2 = out s1 @ [Info m, Display f]"
proof -
  from assms obtain buf where buf: "values_dict st variable = Some buf"
    by (cases "values_dict st variable") (simp_all add: display_text_no_buffer)
  let ?st' = "s1\<lparr>values_dict := values_dict st\<rparr>"
  from display_text_frame [OF refl refl buf buf, of data unit] assms
  have sz: "WIDTH s1 = WIDTH st" "HEIGHT s1 = HEIGHT st" by auto
  have "\<exists>f m s s'. display_text variable data unit st = Inr s
           \<and> display_text variable data unit ?st' = Inr s'
           \<and> out s = out st @ [Info m, Display f]
           \<and> out s' = out ?st' @ [Info m, Display f]
           \<and> WIDTH s = WIDTH st \<and> HEIGHT s = HEIGHT st"
    by (rule display_text_frame) (simp_all add: sz buf)
  with assms show ?thesis by auto
qed

text \<open>
  Claim C9. Rendering a page from the same input value and the same data (the size of
  the display and the histories the page reads) pushes the same frame, whatever the
  canvas and the trace held before. So the single-variable page, invoked again right after
  itself with the same value and with the history as it was before the first invocation,
  pushes the same frame again; and the grid page, which changes no history, pushes the same
  frame when it is invoked twice in succession.
\<close>

theorem rendering_repeats_frame:
  assumes "WIDTH st' = WIDTH st" and "HEIGHT st' = HEIGHT st"
  shows "(values_dict st' variable = values_dict st variable \<longrightarrow>
            map_sum id (\<lambda>s. last (frames (out s))) (display_text variable data unit st')
              = map_sum id (\<lambda>s. last (frames (out s))) (display_text variable data unit st))
       \<and> (values_dict st' = values_dict st \<longrightarrow>
            map_sum id (\<lambda>s. last (frames (out s))) (display_everything st')
              = map_sum id (\<lambda>s. last (frames (out s))) (display_everything st))
       \<and> (\<forall>s1. display_text variable data unit st = Inr s1 \<longrightarrow>
            (\<exists>m f s2. out s1 = out st @ [Info m, Display f]
               \<and> display_text variable data unit (s1\<lparr>values_dict := values_dict st\<rparr>) = Inr s2
               \<and> out s2 = out s1 @ [Info m, Display f]))
       \<and> (\<forall>s1. display_everything st = Inr s1 \<longrightarrow>
            (\<exists>f s2. out s1 = out st @ [Display f] \<and> display_everything s1 = Inr s2
               \<and> out s2 = out s1 @ [Display f]))"
  using display_text_pushes_same [OF assms] display_everything_pushes_same [OF assms]
    display_text_twice [of variable data unit st] display_everything_twice [of st]
  by blast

theorem rendering_repeats_frame_witness:
  "(let st = (setup_program 160 80 0)\<lparr>values_dict := map_of (map (\<lambda>v. (v, [1, 2, 3])) variables)\<rparr>;
        st' = st\<lparr>img := [], out := [Warning ''earlier'']\<rparr>
    in WIDTH st' = WIDTH st \<and> HEIGHT st' = HEIGHT st \<and> values_dict st' = values_dict st
       \<and> map_sum id (\<lambda>s. last (frames (out s))) (display_text ''light'' 5 ''Lux'' st')
           = map_sum id (\<lambda>s. last (frames (out s))) (display_text ''light'' 5 ''Lux'' st)
       \<and> map_sum id (\<lambda>s. last (frames (out s))) (display_everything st')
           = map_sum id (\<lambda>s. last (frames (out s))) (display_everything st)
       \<and> (\<exists>s1. display_text ''light'' 5 ''Lux'' st = Inr s1)
       \<and> (\<exists>s1. display_everything st = Inr s1))"
proof -
  define st where
    "st = (setup_program 160 80 0)\<lparr>values_dict := map_of (map (\<lambda>v. (v, [1, 2, 3])) variables)\<rparr>"
  define st' where "st' = st\<lparr>img := [], out := [Warning ''earlier'']\<rparr>"
  have e: "WIDTH st' = WIDTH st" "HEIGHT st' = HEIGHT st" "values_dict st' = values_dict st"
    by (simp_all add: st'_def)
  have "values_dict st ''light'' = Some [1, 2, 3]"
    by (simp add: st_def variables_def)
  from display_text_result [OF this, of 5 "''Lux''"]
  have a: "\<exists>s1. display_text ''light'' 5 ''Lux'' st = Inr s1" by blast
  have "buffers_ready st"
    by (simp add: st_def buffers_ready_def variables_def)
  from display_everything_result [OF this]
  have b: "\<exists>s1. display_everything st = Inr s1" by blast
  from rendering_repeats_frame [OF e(1,2), of "''light''" 5 "''Lux''"] e a b
  show ?thesis
    unfolding st_def [symmetric] Let_def st'_def [symmetric] by simp
qed

subsection \<open>The light sample\<close>

lemma variable_names:
  "variables ! 0 = ''temperature''" "variables ! 1 = ''pressure''" "variables ! 2 = ''humidity''"
  "variables ! 3 = ''light''" "variables ! 4 = ''oxidised''" "variables ! 5 = ''reduced''"
  "variables ! 6 = ''nh3''" "variables ! 7 = ''pm1''" "variables ! 8 = ''pm25''"
  "variables ! 9 = ''pm10''" "variables ! Suc 0 = ''pressure''"
  by (simp_all add: variables_def)

lemma unit_names:
  "units ! 0 = ''C''" "units ! 1 = ''hPa''" "units ! 2 = ''%''" "units ! 3 = ''Lux''"
  "units ! 4 = ''kO''" "units ! 5 = ''kO''" "units ! 6 = ''kO''" "units ! 7 = ''ug/m3''"
  "units ! 8 = ''ug/m3''" "units ! 9 = ''ug/m3''" "units ! Suc 0 = ''hPa''"
  by (simp_all add: units_def)

lemma light_page:
  assumes "values_dict st ''light'' = Some buf"
  shows "\<exists>s f. display_text ''light'' v ''Lux'' (st\<lparr>out := out st @ reads\<rparr>) = Inr s
           \<and> values_dict s ''light'' = Some (drop 1 buf @ [v])
           \<and> out s = out st @ reads @ [Info (Message ''ligh'' v ''Lux''), Display f]
           \<and> last f = Text (0, 0) (Message ''ligh'' v ''Lux'') font (0, 0, 0)"
proof -
  from assms have "values_dict (st\<lparr>out := out st @ reads\<rparr>) ''light'' = Some buf" by simp
  from display_text_result [OF this, where data = v and unit = "''Lux''"]
  show ?thesis by auto
qed

lemma light_grid:
  assumes "buffers_ready st" and "values_dict st ''light'' = Some buf"
  shows "\<exists>s f xy c.
           then_do (save_data 3 v (st\<lparr>out := out st @ reads\<rparr>)) display_everything = Inr s
           \<and> values_dict s ''light'' = Some (drop 1 buf @ [v])
           \<and> out s = out st @ reads @ [Info (Message ''ligh'' v ''Lux''), Display f]
           \<and> f ! 4 = Text xy (Message ''ligh'' v ''Lux'') smallfont c"
proof -
  let ?st1 = "st\<lparr>out := out st @ reads\<rparr>"
  let ?st2 = "?st1\<lparr>values_dict := (values_dict ?st1)(variables ! 3 \<mapsto> drop 1 buf @ [v]),
                 out := out ?st1 @ [Info (Message (take 4 (variables ! 3)) v (units ! 3))]\<rparr>"
  have "values_dict ?st1 (variables ! 3) = Some buf"
    using assms(2) by (simp add: variable_names)
  then have sv: "save_data 3 v ?st1 = Inr ?st2"
    by (intro save_data_result) simp_all
  have "buffers_ready ?st2"
    using assms(1) by (auto simp: buffers_ready_def list_all_iff split: option.splits)
  from display_everything_result [OF this] obtain g where
    g: "display_everything ?st2 = Inr (?st2\<lparr>img := g, out := out ?st2 @ [Display g]\<rparr>)"
      "\<forall>k < 10. \<exists>xy c b. values_dict ?st2 (variables ! k) = Some b
          \<and> g ! Suc k = Text xy (Message (take 4 (variables ! k)) (last b) (units ! k)) smallfont c"
    by blast
  have "\<exists>xy c b. values_dict ?st2 (variables ! 3) = Some b
          \<and> g ! Suc 3 = Text xy (Message (take 4 (variables ! 3)) (last b) (units ! 3)) smallfont c"
    using g(2) [rule_format, of 3] by simp
  moreover have "Suc 3 = 4" by simp
  ultimately obtain xy c where "g ! 4 = Text xy (Message ''ligh'' v ''Lux'') smallfont c"
    by (auto simp: variable_names unit_names)
  with sv g(1) show ?thesis
    by (cases c) (simp add: then_do_def variable_names unit_names)
qed

text \<open>
  Claim C10. Whenever the light variable is sampled, on its own page and on the grid
  page, the value recorded in its history, logged and drawn is the constant 1 when the
  proximity is 10 or more, and then the lux sensor is not read; it is the lux reading only
  when the proximity is below 10.
\<close>

theorem light_sample_by_proximity:
  assumes "values_dict st ''light'' = Some buf"
  shows "(\<exists>s f. handle_light_mode rd st = Inr s
            \<and> values_dict s ''light''
                = Some (drop 1 buf @ [if proximity st < 10 then r_lux_page rd else 1])
            \<and> out s = out st @ (if proximity st < 10 then [Read Lux] else [])
                @ [Info (Message ''ligh'' (if proximity st < 10 then r_lux_page rd else 1) ''Lux''),
                   Display f]
            \<and> last f = Text (0, 0)
                (Message ''ligh'' (if proximity st < 10 then r_lux_page rd else 1) ''Lux'')
                font (0, 0, 0))
       \<and> (buffers_ready st \<longrightarrow>
           (\<exists>s f xy c. everything_light rd st = Inr s
            \<and> values_dict s ''light''
                = Some (drop 1 buf @ [if proximity st < 10 then r_lux_page rd else 1])
            \<and> out s = out st @ (if proximity st < 10 then [Read Lux] else [])
                @ [Info (Message ''ligh'' (if proximity st < 10 then r_lux_page rd else 1) ''Lux''),
                   Display f]
            \<and> f ! 4 = Text xy
                (Message ''ligh'' (if proximity st < 10 then r_lux_page rd else 1) ''Lux'')
                smallfont c))"
proof (cases "proximity st < 10")
  case True
  have p: "sensor_read Lux st = st\<lparr>out := out st @ [Read Lux]\<rparr>"
    by (simp add: sensor_read_def)
  from True light_page [OF assms, of "r_lux_page rd" "[Read Lux]"]
    light_grid [OF _ assms, of "r_lux_page rd" "[Read Lux]"]
  show ?thesis
    by (simp add: handle_light_mode_def everything_light_def p variable_names)
next
  case False
  have p: "st\<lparr>out := out st @ []\<rparr> = st" by simp
  from False light_page [OF assms, of 1 "[]"] light_grid [OF _ assms, of 1 "[]"]
  show ?thesis
    by (simp add: handle_light_mode_def everything_light_def variable_names)
qed

lemma seeded_ready:
  "buffers_ready ((setup_program 160 80 0)
     \<lparr>values_dict := map_of (zip variables (replicate 10 [1, 2, 3]))\<rparr>)"
  by (simp add: buffers_ready_def variables_def numeral_eq_Suc)

theorem light_sample_by_proximity_witness:
  "(\<exists>s f. handle_light_mode
          \<lparr>r_proximity = 50, r_lux = 100, r_now = 1, r_time_check = 1, r_time_set = 1,
            r_cpu_temperature = 50, r_temperature = 20, r_pressure = 1000, r_humidity = 40,
            r_lux_page = 100, r_gas = (10000, 20000, 30000), r_pms = PmsData 1 2 3\<rparr>
          ((setup_program 160 80 0)
             \<lparr>values_dict := map_of (zip variables (replicate 10 [1, 2, 3])), proximity := 50\<rparr>)
         = Inr s
       \<and> values_dict s ''light'' = Some [2, 3, 1]
       \<and> out s = [Info (Message ''ligh'' 1 ''Lux''), Display f])
   \<and> (\<exists>s f. everything_light
          \<lparr>r_proximity = 50, r_lux = 100, r_now = 1, r_time_check = 1, r_time_set = 1,
            r_cpu_temperature = 50, r_temperature = 20, r_pressure = 1000, r_humidity = 40,
            r_lux_page = 100, r_gas = (10000, 20000, 30000), r_pms = PmsData 1 2 3\<rparr>
          ((setup_program 160 80 0)
             \<lparr>values_dict := map_of (zip variables (replicate 10 [1, 2, 3])), proximity := 50\<rparr>)
         = Inr s
       \<and> values_dict s ''light'' = Some [2, 3, 1]
       \<and> out s = [Info (Message ''ligh'' 1 ''Lux''), Display f])"
proof -
  define st where "st = (setup_program 160 80 0)
     \<lparr>values_dict := map_of (zip variables (replicate 10 [1, 2, 3])), proximity := 50\<rparr>"
  define rd where "rd = \<lparr>r_proximity = 50, r_lux = 100, r_now = 1, r_time_check = 1, r_time_set = 1,
            r_cpu_temperature = 50, r_temperature = 20, r_pressure = 1000, r_humidity = 40,
            r_lux_page = 100, r_gas = (10000 :: real, 20000 :: real, 30000 :: real),
            r_pms = PmsData 1 2 3\<rparr>"
  have l: "values_dict st ''light'' = Some [1, 2, 3]"
    by (simp add: st_def variables_def numeral_eq_Suc)
  have r: "buffers_ready st"
    using seeded_ready by (simp add: st_def buffers_ready_def)
  have p: "\<not> proximity st < 10" and o: "out st = []"
    by (simp_all add: st_def setup_program_def)
  from light_sample_by_proximity [OF l, of rd] r p o
  have "(\<exists>s f. handle_light_mode rd st = Inr s \<and> values_dict s ''light'' = Some [2, 3, 1]
            \<and> out s = [Info (Message ''ligh'' 1 ''Lux''), Display f])
      \<and> (\<exists>s f. everything_light rd st = Inr s \<and> values_dict s ''light'' = Some [2, 3, 1]
            \<and> out s = [Info (Message ''ligh'' 1 ''Lux''), Display f])"
    by (simp, blast)
  then show ?thesis
    unfolding st_def rd_def .
qed

subsection \<open>A pass of the grid handler\<close>

lemma save_data_ready:
  assumes "buffers_ready st" and "idx < 10"
  shows "\<exists>s. save_data idx v st = Inr s \<and> buffers_ready s \<and> proximity s = proximity st
           \<and> (\<forall>k. k \<noteq> variables ! idx \<longrightarrow> values_dict s k = values_dict st k)
           \<and> out s = out st @ [Info (Message (take 4 (variables ! idx)) v (units ! idx))]"
proof -
  from buffers_ready_lookup [OF assms]
  obtain buf where buf: "values_dict st (variables ! idx) = Some buf" by blast
  let ?s = "st\<lparr>values_dict := (values_dict st)(variables ! idx \<mapsto> drop 1 buf @ [v]),
                out := out st @ [Info (Message (take 4 (variables ! idx)) v (units ! idx))]\<rparr>"
  have "buffers_ready ?s"
    using assms(1) by (auto simp: buffers_ready_def list_all_iff split: option.splits)
  with save_data_result [OF assms(2) buf, of v] show ?thesis by simp
qed

lemma display_everything_ready:
  assumes "buffers_ready st"
  shows "\<exists>s g. display_everything st = Inr s \<and> buffers_ready s \<and> proximity s = proximity st
           \<and> pm_histories s = pm_histories st
           \<and> out s = out st @ [Display g]"
proof -
  from display_everything_result [OF assms] obtain g where
    "display_everything st = Inr (st\<lparr>img := g, out := out st @ [Display g]\<rparr>)" by blast
  moreover have "buffers_ready (st\<lparr>img := g, out := out st @ [Display g]\<rparr>)"
    using assms by (simp add: buffers_ready_def)
  ultimately show ?thesis by (simp add: pm_histories_def)
qed

lemma sensor_read_ready:
  "buffers_ready (sensor_read x st) = buffers_ready st
   \<and> proximity (sensor_read x st) = proximity st
   \<and> values_dict (sensor_read x st) = values_dict st
   \<and> out (sensor_read x st) = out st @ [Read x]"
  by (simp add: sensor_read_def buffers_ready_def)

lemma everything_temperature_ready:
  assumes "buffers_ready st"
  shows "\<exists>s g. everything_temperature avg rd st = Inr s \<and> buffers_ready s
           \<and> proximity s = proximity st \<and> pm_histories s = pm_histories st
           \<and> out s = out st @ [Read Temperature,
                Info (Message ''temp'' (r_temperature rd - (avg - r_temperature rd) / factor) ''C''),
                Display g]"
proof -
  from assms have "buffers_ready (sensor_read Temperature st)"
    by (simp add: sensor_read_ready)
  from save_data_ready [OF this, of 0 "r_temperature rd - (avg - r_temperature rd) / factor"]
  obtain s1 where s1: "save_data 0 (r_temperature rd - (avg - r_temperature rd) / factor)
        (sensor_read Temperature st) = Inr s1" "buffers_ready s1" "proximity s1 = proximity st"
      "pm_histories s1 = pm_histories st"
      "out s1 = out st @ [Read Temperature,
         Info (Message ''temp'' (r_temperature rd - (avg - r_temperature rd) / factor) ''C'')]"
    by (auto simp: sensor_read_ready variable_names unit_names pm_histories_def)
  from display_everything_ready [OF s1(2)] s1 show ?thesis
    by (auto simp: everything_temperature_def then_do_def Let_def)
qed

lemma everything_pressure_ready:
  assumes "buffers_ready st"
  shows "\<exists>s g. everything_pressure rd st = Inr s \<and> buffers_ready s
           \<and> proximity s = proximity st \<and> pm_histories s = pm_histories st
           \<and> out s = out st @ [Read Pressure, Info (Message ''pres'' (r_pressure rd) ''hPa''),
                Display g]"
proof -
  from assms have "buffers_ready (sensor_read Pressure st)"
    by (simp add: sensor_read_ready)
  from save_data_ready [OF this, of 1 "r_pressure rd"]
  obtain s1 where s1: "save_data 1 (r_pressure rd) (sensor_read Pressure st) = Inr s1"
      "buffers_ready s1" "proximity s1 = proximity st"
      "pm_histories s1 = pm_histories st"
      "out s1 = out st @ [Read Pressure, Info (Message ''pres'' (r_pressure rd) ''hPa'')]"
    by (auto simp: sensor_read_ready variable_names unit_names pm_histories_def)
  from display_everything_ready [OF s1(2)] s1 show ?thesis
    by (auto simp: everything_pressure_def then_do_def)
qed

lemma everything_humidity_ready:
  assumes "buffers_ready st"
  shows "\<exists>s. everything_humidity rd st = Inr s \<and> buffers_ready s
           \<and> proximity s = proximity st \<and> pm_histories s = pm_histories st
           \<and> out s = out st @ [Read Humidity, Info (Message ''humi'' (r_humidity rd) ''%'')]"
proof -
  from assms have "buffers_ready (sensor_read Humidity st)"
    by (simp add: sensor_read_ready)
  from save_data_ready [OF this, of 2 "r_humidity rd"] show ?thesis
    by (auto simp: everything_humidity_def sensor_read_ready variable_names unit_names pm_histories_def)
qed

lemma everything_light_ready:
  assumes "buffers_ready st"
  shows "\<exists>s g. everything_light rd st = Inr s \<and> buffers_ready s
           \<and> proximity s = proximity st \<and> pm_histories s = pm_histories st
           \<and> out s = out st @ (if proximity st < 10 then [Read Lux] else [])
                @ [Info (Message ''ligh'' (if proximity st < 10 then r_lux_page rd else 1) ''Lux''),
                   Display g]"
proof (cases "proximity st < 10")
  case True
  from assms have "buffers_ready (sensor_read Lux st)"
    by (simp add: sensor_read_ready)
  from save_data_ready [OF this, of 3 "r_lux_page rd"]
  obtain s1 where s1: "save_data 3 (r_lux_page rd) (sensor_read Lux st) = Inr s1"
      "buffers_ready s1" "proximity s1 = proximity st"
      "pm_histories s1 = pm_histories st"
      "out s1 = out st @ [Read Lux, Info (Message ''ligh'' (r_lux_page rd) ''Lux'')]"
    by (auto simp: sensor_read_ready variable_names unit_names pm_histories_def)
  from display_everything_ready [OF s1(2)] s1 True show ?thesis
    by (auto simp: everything_light_def then_do_def)
next
  case False
  from save_data_ready [OF assms, of 3 1]
  obtain s1 where s1: "save_data 3 1 st = Inr s1"
      "buffers_ready s1" "proximity s1 = proximity st"
      "pm_histories s1 = pm_histories st"
      "out s1 = out st @ [Info (Message ''ligh'' 1 ''Lux'')]"
    by (auto simp: variable_names unit_names pm_histories_def)
  from display_everything_ready [OF s1(2)] s1 False show ?thesis
    by (auto simp: everything_light_def then_do_def)
qed

lemma everything_gases_ready:
  assumes "buffers_ready st" and "r_gas rd = (oxidising, reducing, nh3)"
  shows "\<exists>s g. everything_gases rd st = Inr s \<and> buffers_ready s
           \<and> proximity s = proximity st \<and> pm_histories s = pm_histories st
           \<and> out s = out st @ [Read Gas, Info (Message ''oxid'' (oxidising / 1000) ''kO''),
                Info (Message ''redu'' (reducing / 1000) ''kO''),
                Info (Message ''nh3'' (nh3 / 1000) ''kO''), Display g]"
proof -
  from assms(1) have "buffers_ready (sensor_read Gas st)"
    by (simp add: sensor_read_ready)
  from save_data_ready [OF this, of 4 "oxidising / 1000"]
  obtain s1 where s1: "save_data 4 (oxidising / 1000) (sensor_read Gas st) = Inr s1"
      "buffers_ready s1" "proximity s1 = proximity st"
      "pm_histories s1 = pm_histories st"
      "out s1 = out st @ [Read Gas, Info (Message ''oxid'' (oxidising / 1000) ''kO'')]"
    by (auto simp: sensor_read_ready variable_names unit_names pm_histories_def)
  from save_data_ready [OF s1(2), of 5 "reducing / 1000"]
  obtain s2 where s2: "save_data 5 (reducing / 1000) s1 = Inr s2"
      "buffers_ready s2" "proximity s2 = proximity s1"
      "pm_histories s2 = pm_histories s1"
      "out s2 = out s1 @ [Info (Message ''redu'' (reducing / 1000) ''kO'')]"
    by (auto simp: variable_names unit_names pm_histories_def)
  from save_data_ready [OF s2(2), of 6 "nh3 / 1000"]
  obtain s3 where s3: "save_data 6 (nh3 / 1000) s2 = Inr s3"
      "buffers_ready s3" "proximity s3 = proximity s2"
      "pm_histories s3 = pm_histories s2"
      "out s3 = out s2 @ [Info (Message ''nh3'' (nh3 / 1000) ''kO'')]"
    by (auto simp: variable_names unit_names pm_histories_def)
  from display_everything_ready [OF s3(2)] s1 s2 s3 assms(2) show ?thesis
    by (auto simp: everything_gases_def then_do_def)
qed

lemma everything_particulates_data:
  assumes "buffers_ready st" and "r_pms rd = PmsData pm1_0 pm2_5 pm10_0"
  shows "\<exists>s g. everything_particulates rd st = Inr s \<and> buffers_ready s
           \<and> out s = out st @ [Read Particulates, Info (Message ''pm1'' pm1_0 ''ug/m3''),
                Info (Message ''pm25'' pm2_5 ''ug/m3''),
                Info (Message ''pm10'' pm10_0 ''ug/m3''), Display g]"
proof -
  from assms(1) have "buffers_ready (sensor_read Particulates st)"
    by (simp add: sensor_read_ready)
  from save_data_ready [OF this, of 7 pm1_0]
  obtain s1 where s1: "save_data 7 pm1_0 (sensor_read Particulates st) = Inr s1"
      "buffers_ready s1"
      "out s1 = out st @ [Read Particulates, Info (Message ''pm1'' pm1_0 ''ug/m3'')]"
    by (auto simp: sensor_read_ready variable_names unit_names pm_histories_def)
  from save_data_ready [OF s1(2), of 8 pm2_5]
  obtain s2 where s2: "save_data 8 pm2_5 s1 = Inr s2" "buffers_ready s2"
      "out s2 = out s1 @ [Info (Message ''pm25'' pm2_5 ''ug/m3'')]"
    by (auto simp: variable_names unit_names pm_histories_def)
  from save_data_ready [OF s2(2), of 9 pm10_0]
  obtain s3 where s3: "save_data 9 pm10_0 s2 = Inr s3" "buffers_ready s3"
      "out s3 = out s2 @ [Info (Message ''pm10'' pm10_0 ''ug/m3'')]"
    by (auto simp: variable_names unit_names pm_histories_def)
  from display_everything_ready [OF s3(2)] s1 s2 s3 assms(2) show ?thesis
    by (auto simp: everything_particulates_def then_do_def Let_def)
qed

lemma everything_particulates_timeout:
  assumes "r_pms rd = SerialTimeoutError \<or> r_pms rd = ReadTimeoutError"
  shows "everything_particulates rd st =
           Inr (st\<lparr>out := out st @ [Read Particulates, Warning ''Failed to read PMS5003'']\<rparr>)"
  using assms
  by (auto simp: everything_particulates_def sensor_read_def logging_warning_def Let_def)

lemma everything_before_particulates:
  assumes "buffers_ready st" and "r_gas rd = (oxidising, reducing, nh3)"
  shows "\<exists>s g1 g2 g3 g4. everything_after_smoothing avg rd st = everything_particulates rd s
           \<and> buffers_ready s \<and> pm_histories s = pm_histories st
           \<and> out s = out st
               @ [Read Temperature,
                  Info (Message ''temp'' (r_temperature rd - (avg - r_temperature rd) / factor) ''C''),
                  Display g1,
                  Read Pressure, Info (Message ''pres'' (r_pressure rd) ''hPa''), Display g2,
                  Read Humidity, Info (Message ''humi'' (r_humidity rd) ''%'')]
               @ (if proximity st < 10 then [Read Lux] else [])
               @ [Info (Message ''ligh'' (if proximity st < 10 then r_lux_page rd else 1) ''Lux''),
                  Display g3,
                  Read Gas, Info (Message ''oxid'' (oxidising / 1000) ''kO''),
                  Info (Message ''redu'' (reducing / 1000) ''kO''),
                  Info (Message ''nh3'' (nh3 / 1000) ''kO''), Display g4]"
proof -
  from everything_temperature_ready [OF assms(1), of avg rd]
  obtain s1 g1 where s1: "everything_temperature avg rd st = Inr s1" "buffers_ready s1"
      "proximity s1 = proximity st" "pm_histories s1 = pm_histories st"
      "out s1 = out st @ [Read Temperature,
         Info (Message ''temp'' (r_temperature rd - (avg - r_temperature rd) / factor) ''C''),
         Display g1]"
    by blast
  from everything_pressure_ready [OF s1(2), of rd]
  obtain s2 g2 where s2: "everything_pressure rd s1 = Inr s2" "buffers_ready s2"
      "proximity s2 = proximity s1" "pm_histories s2 = pm_histories s1"
      "out s2 = out s1 @ [Read Pressure, Info (Message ''pres'' (r_pressure rd) ''hPa''), Display g2]"
    by blast
  from everything_humidity_ready [OF s2(2), of rd]
  obtain s3 where s3: "everything_humidity rd s2 = Inr s3" "buffers_ready s3"
      "proximity s3 = proximity s2" "pm_histories s3 = pm_histories s2"
      "out s3 = out s2 @ [Read Humidity, Info (Message ''humi'' (r_humidity rd) ''%'')]"
    by blast
  from everything_light_ready [OF s3(2), of rd]
  obtain s4 g3 where s4: "everything_light rd s3 = Inr s4" "buffers_ready s4"
      "proximity s4 = proximity s3" "pm_histories s4 = pm_histories s3"
      "out s4 = out s3 @ (if proximity s3 < 10 then [Read Lux] else [])
         @ [Info (Message ''ligh'' (if proximity s3 < 10 then r_lux_page rd else 1) ''Lux''),
            Display g3]"
    by blast
  from everything_gases_ready [OF s4(2) assms(2)]
  obtain s5 g4 where s5: "everything_gases rd s4 = Inr s5" "buffers_ready s5"
      "pm_histories s5 = pm_histories s4"
      "out s5 = out s4 @ [Read Gas, Info (Message ''oxid'' (oxidising / 1000) ''kO''),
         Info (Message ''redu'' (reducing / 1000) ''kO''),
         Info (Message ''nh3'' (nh3 / 1000) ''kO''), Display g4]"
    by blast
  have "everything_after_smoothing avg rd st = everything_particulates rd s5"
    using s1(1) s2(1) s3(1) s4(1) s5(1) by (simp add: everything_after_smoothing_def then_do_def)
  moreover have "pm_histories s5 = pm_histories st"
    using s1(4) s2(4) s3(4) s4(4) s5(3) by simp
  moreover have "out s5 = out st
               @ [Read Temperature,
                  Info (Message ''temp'' (r_temperature rd - (avg - r_temperature rd) / factor) ''C''),
                  Display g1,
                  Read Pressure, Info (Message ''pres'' (r_pressure rd) ''hPa''), Display g2,
                  Read Humidity, Info (Message ''humi'' (r_humidity rd) ''%'')]
               @ (if proximity st < 10 then [Read Lux] else [])
               @ [Info (Message ''ligh'' (if proximity st < 10 then r_lux_page rd else 1) ''Lux''),
                  Display g3,
                  Read Gas, Info (Message ''oxid'' (oxidising / 1000) ''kO''),
                  Info (Message ''redu'' (reducing / 1000) ''kO''),
                  Info (Message ''nh3'' (nh3 / 1000) ''kO''), Display g4]"
    using s1(3,5) s2(3,5) s3(3,5) s4(5) s5(4) by simp
  ultimately show ?thesis using s5(2) by blast
qed

lemma everything_pass_data:
  assumes "buffers_ready st" and "r_gas rd = (oxidising, reducing, nh3)"
    and "r_pms rd = PmsData pm1_0 pm2_5 pm10_0"
  shows "\<exists>s g1 g2 g3 g4 g5. everything_after_smoothing avg rd st = Inr s
           \<and> out s = out st
               @ [Read Temperature,
                  Info (Message ''temp'' (r_temperature rd - (avg - r_temperature rd) / factor) ''C''),
                  Display g1,
                  Read Pressure, Info (Message ''pres'' (r_pressure rd) ''hPa''), Display g2,
                  Read Humidity, Info (Message ''humi'' (r_humidity rd) ''%'')]
               @ (if proximity st < 10 then [Read Lux] else [])
               @ [Info (Message ''ligh'' (if proximity st < 10 then r_lux_page rd else 1) ''Lux''),
                  Display g3,
                  Read Gas, Info (Message ''oxid'' (oxidising / 1000) ''kO''),
                  Info (Message ''redu'' (reducing / 1000) ''kO''),
                  Info (Message ''nh3'' (nh3 / 1000) ''kO''), Display g4,
                  Read Particulates, Info (Message ''pm1'' pm1_0 ''ug/m3''),
                  Info (Message ''pm25'' pm2_5 ''ug/m3''),
                  Info (Message ''pm10'' pm10_0 ''ug/m3''), Display g5]"
proof -
  from everything_before_particulates [OF assms(1,2), of avg]
  obtain s g1 g2 g3 g4 where s: "everything_after_smoothing avg rd st = everything_particulates rd s"
      "buffers_ready s"
      "out s = out st
               @ [Read Temperature,
                  Info (Message ''temp'' (r_temperature rd - (avg - r_temperature rd) / factor) ''C''),
                  Display g1,
                  Read Pressure, Info (Message ''pres'' (r_pressure rd) ''hPa''), Display g2,
                  Read Humidity, Info (Message ''humi'' (r_humidity rd) ''%'')]
               @ (if proximity st < 10 then [Read Lux] else [])
               @ [Info (Message ''ligh'' (if proximity st < 10 then r_lux_page rd else 1) ''Lux''),
                  Display g3,
                  Read Gas, Info (Message ''oxid'' (oxidising / 1000) ''kO''),
                  Info (Message ''redu'' (reducing / 1000) ''kO''),
                  Info (Message ''nh3'' (nh3 / 1000) ''kO''), Display g4]"
    by blast
  from everything_particulates_data [OF s(2) assms(3)]
  obtain s' g5 where "everything_particulates rd s = Inr s'"
      "out s' = out s @ [Read Particulates, Info (Message ''pm1'' pm1_0 ''ug/m3''),
                Info (Message ''pm25'' pm2_5 ''ug/m3''),
                Info (Message ''pm10'' pm10_0 ''ug/m3''), Display g5]"
    by blast
  with s(1,3) show ?thesis by simp
qed

lemma everything_pass_timeout:
  assumes "buffers_ready st" and "r_gas rd = (oxidising, reducing, nh3)"
    and "r_pms rd = SerialTimeoutError \<or> r_pms rd = ReadTimeoutError"
  shows "\<exists>s g1 g2 g3 g4. everything_after_smoothing avg rd st = Inr s
           \<and> pm_histories s = pm_histories st
           \<and> out s = out st
               @ [Read Temperature,
                  Info (Message ''temp'' (r_temperature rd - (avg - r_temperature rd) / factor) ''C''),
                  Display g1,
                  Read Pressure, Info (Message ''pres'' (r_pressure rd) ''hPa''), Display g2,
                  Read Humidity, Info (Message ''humi'' (r_humidity rd) ''%'')]
               @ (if proximity st < 10 then [Read Lux] else [])
               @ [Info (Message ''ligh'' (if proximity st < 10 then r_lux_page rd else 1) ''Lux''),
                  Display g3,
                  Read Gas, Info (Message ''oxid'' (oxidising / 1000) ''kO''),
                  Info (Message ''redu'' (reducing / 1000) ''kO''),
                  Info (Message ''nh3'' (nh3 / 1000) ''kO''), Display g4,
                  Read Particulates, Warning ''Failed to read PMS5003'']"
proof -
  from everything_before_particulates [OF assms(1,2), of avg]
  obtain s g1 g2 g3 g4 where s: "everything_after_smoothing avg rd st = everything_particulates rd s"
      "pm_histories s = pm_histories st"
      "out s = out st
               @ [Read Temperature,
                  Info (Message ''temp'' (r_temperature rd - (avg - r_temperature rd) / factor) ''C''),
                  Display g1,
                  Read Pressure, Info (Message ''pres'' (r_pressure rd) ''hPa''), Display g2,
                  Read Humidity, Info (Message ''humi'' (r_humidity rd) ''%'')]
               @ (if proximity st < 10 then [Read Lux] else [])
               @ [Info (Message ''ligh'' (if proximity st < 10 then r_lux_page rd else 1) ''Lux''),
                  Display g3,
                  Read Gas, Info (Message ''oxid'' (oxidising / 1000) ''kO''),
                  Info (Message ''redu'' (reducing / 1000) ''kO''),
                  Info (Message ''nh3'' (nh3 / 1000) ''kO''), Display g4]"
    by blast
  let ?s' = "s\<lparr>out := out s @ [Read Particulates, Warning ''Failed to read PMS5003'']\<rparr>"
  have "everything_after_smoothing avg rd st = Inr ?s'"
    using s(1) everything_particulates_timeout [OF assms(3), of s] by simp
  moreover have "pm_histories ?s' = pm_histories st"
    using s(2) by (simp add: pm_histories_def)
  ultimately show ?thesis using s(3) by (intro exI [of _ ?s']) auto
qed

text \<open>
  Claim C8 (the code departs from it). The grid handler reads the CPU temperature and
  then raises \<^verbatim>\<open>UnboundLocalError\<close> at its smoothing statement, whatever the readings
  and the state: no reading is recorded and no frame is pushed, in a direct call and when
  the loop dispatches to it in mode 10. The lemmas above describe the statements that
  follow the smoothing, which no call reaches: on a state with a history for every
  variable they would push the grid five times, the humidity and the light sharing one
  frame.
\<close>

theorem grid_handler_raises:
  "handle_display_everything_mode rd st = Inl (UnboundLocalError ''cpu_temps'')
   \<and> dispatch rd (st\<lparr>mode := 10\<rparr>) = Inl (UnboundLocalError ''cpu_temps'')"
  by (simp add: dispatch_def handle_display_everything_mode_def smooth_cpu_temps_def
      local_cpu_temps_def then_do_def)

subsection \<open>A particulate read that times out\<close>

lemma update_backlight_keeps:
  assumes "update_backlight now st = Inr s"
  shows "values_dict s = values_dict st \<and> frames (out s) = frames (out st)
       \<and> mode s = mode st \<and> proximity s = proximity st \<and> last_page s = last_page st"
  using assms
  by (auto simp: update_backlight_def then_do_def set_backlight_def frames_append
      split: if_splits option.splits)

lemma update_page_keeps:
  "values_dict (update_page c t st) = values_dict st \<and> out (update_page c t st) = out st"
  by (simp add: update_page_def)

lemma pm_handlers_timeout:
  assumes "r_pms rd = SerialTimeoutError \<or> r_pms rd = ReadTimeoutError"
  shows "handle_pm1_mode rd st =
           Inr (st\<lparr>out := out st @ [Read Particulates, Warning ''Failed to read PMS5003'']\<rparr>)"
    and "handle_pm25_mode rd st =
           Inr (st\<lparr>out := out st @ [Read Particulates, Warning ''Failed to read PMS5003'']\<rparr>)"
    and "handle_pm10_mode rd st =
           Inr (st\<lparr>out := out st @ [Read Particulates, Warning ''Failed to read PMS5003'']\<rparr>)"
  using assms
  by (auto simp: handle_pm1_mode_def handle_pm25_mode_def handle_pm10_mode_def
      sensor_read_def logging_warning_def Let_def)

lemma dispatch_pm_timeout:
  assumes "r_pms rd = SerialTimeoutError \<or> r_pms rd = ReadTimeoutError"
    and "mode st = 7 \<or> mode st = 8 \<or> mode st = 9"
  shows "dispatch rd st =
           Inr (st\<lparr>out := out st @ [Read Particulates, Warning ''Failed to read PMS5003'']\<rparr>)"
  using assms(2) pm_handlers_timeout [OF assms(1), of st]
  by (auto simp: dispatch_def)

text \<open>
  Claim C7. When the particulate read raises one of the two timeouts, each particulate
  handler, and the particulate step of the grid handler, returns normally with the state
  unchanged except for the trace, which gains the read and the warning: no history
  changes and no frame is pushed. Over a whole pass of the grid handler after the
  smoothing the three particulate histories are as before the pass. An iteration of the
  loop that dispatches to a particulate handler therefore ends normally, with the
  histories and the frames pushed so far unchanged, and the loop goes on with the next
  pass.
\<close>

theorem particulate_timeout_skips:
  assumes "r_pms rd = SerialTimeoutError \<or> r_pms rd = ReadTimeoutError"
  shows "handle_pm1_mode rd st =
           Inr (st\<lparr>out := out st @ [Read Particulates, Warning ''Failed to read PMS5003'']\<rparr>)
       \<and> handle_pm25_mode rd st =
           Inr (st\<lparr>out := out st @ [Read Particulates, Warning ''Failed to read PMS5003'']\<rparr>)
       \<and> handle_pm10_mode rd st =
           Inr (st\<lparr>out := out st @ [Read Particulates, Warning ''Failed to read PMS5003'']\<rparr>)
       \<and> everything_particulates rd st =
           Inr (st\<lparr>out := out st @ [Read Particulates, Warning ''Failed to read PMS5003'']\<rparr>)
       \<and> (buffers_ready st \<longrightarrow>
            (\<exists>s. everything_after_smoothing avg rd st = Inr s
               \<and> pm_histories s = pm_histories st
               \<and> last (out s) = Warning ''Failed to read PMS5003''))
       \<and> (\<forall>s1. update_backlight (r_now rd)
                  ((sensor_read Lux ((sensor_read Proximity st)\<lparr>proximity := r_proximity rd\<rparr>))
                     \<lparr>lux := r_lux rd\<rparr>) = Inr s1
               \<and> (mode (update_page (r_time_check rd) (r_time_set rd) s1) = 7
                  \<or> mode (update_page (r_time_check rd) (r_time_set rd) s1) = 8
                  \<or> mode (update_page (r_time_check rd) (r_time_set rd) s1) = 9) \<longrightarrow>
            (\<exists>s. iteration rd st = Inr s
               \<and> values_dict s = values_dict st
               \<and> frames (out s) = frames (out st)
               \<and> last (out s) = Warning ''Failed to read PMS5003''
               \<and> main_loop (Iteration rd # ps) st = main_loop ps s))"
proof -
  have e: "buffers_ready st \<longrightarrow>
            (\<exists>s. everything_after_smoothing avg rd st = Inr s
               \<and> pm_histories s = pm_histories st
               \<and> last (out s) = Warning ''Failed to read PMS5003'')"
  proof
    assume r: "buffers_ready st"
    obtain a b c where g: "r_gas rd = (a, b, c)" by (cases "r_gas rd") auto
    from everything_pass_timeout [OF r g assms, of avg] show
      "\<exists>s. everything_after_smoothing avg rd st = Inr s
               \<and> pm_histories s = pm_histories st
               \<and> last (out s) = Warning ''Failed to read PMS5003''"
      by auto
  qed
  have i: "\<exists>s. iteration rd st = Inr s
               \<and> values_dict s = values_dict st
               \<and> frames (out s) = frames (out st)
               \<and> last (out s) = Warning ''Failed to read PMS5003''
               \<and> main_loop (Iteration rd # ps) st = main_loop ps s"
    if b: "update_backlight (r_now rd)
                  ((sensor_read Lux ((sensor_read Proximity st)\<lparr>proximity := r_proximity rd\<rparr>))
                     \<lparr>lux := r_lux rd\<rparr>) = Inr s1"
      and m: "mode (update_page (r_time_check rd) (r_time_set rd) s1) = 7
                  \<or> mode (update_page (r_time_check rd) (r_time_set rd) s1) = 8
                  \<or> mode (update_page (r_time_check rd) (r_time_set rd) s1) = 9"
    for s1
  proof -
    let ?s2 = "update_page (r_time_check rd) (r_time_set rd) s1"
    let ?s = "?s2\<lparr>out := out ?s2 @ [Read Particulates, Warning ''Failed to read PMS5003'']\<rparr>"
    from update_backlight_keeps [OF b]
    have k: "values_dict s1 = values_dict st" "frames (out s1) = frames (out st)"
      by (simp_all add: sensor_read_def frames_append)
    have it: "iteration rd st = Inr ?s"
      using b dispatch_pm_timeout [OF assms m]
      by (simp add: iteration_def then_do_def Let_def)
    moreover have "values_dict ?s = values_dict st" "frames (out ?s) = frames (out st)"
      using k by (simp_all add: update_page_keeps frames_append)
    moreover have "main_loop (Iteration rd # ps) st = main_loop ps ?s"
      using it by (simp add: then_do_def)
    ultimately show ?thesis by (intro exI [of _ ?s]) simp
  qed
  from pm_handlers_timeout [OF assms, of st] everything_particulates_timeout [OF assms, of st] e i
  show ?thesis by blast
qed

theorem particulate_timeout_skips_witness:
  "(\<exists>s. iteration
          \<lparr>r_proximity = 0, r_lux = 100, r_now = 1, r_time_check = 1, r_time_set = 1,
            r_cpu_temperature = 50, r_temperature = 20, r_pressure = 1000, r_humidity = 40,
            r_lux_page = 100, r_gas = (10000, 20000, 30000), r_pms = ReadTimeoutError\<rparr>
          ((setup_program 160 80 0)
             \<lparr>values_dict := map_of (zip variables (replicate 10 [1, 2, 3])), mode := 7\<rparr>)
         = Inr s
       \<and> values_dict s = map_of (zip variables (replicate 10 [1, 2, 3]))
       \<and> frames (out s) = []
       \<and> last (out s) = Warning ''Failed to read PMS5003'')
   \<and> (\<exists>s. everything_after_smoothing 50
          \<lparr>r_proximity = 0, r_lux = 100, r_now = 1, r_time_check = 1, r_time_set = 1,
            r_cpu_temperature = 50, r_temperature = 20, r_pressure = 1000, r_humidity = 40,
            r_lux_page = 100, r_gas = (10000, 20000, 30000), r_pms = ReadTimeoutError\<rparr>
          ((setup_program 160 80 0)
             \<lparr>values_dict := map_of (zip variables (replicate 10 [1, 2, 3]))\<rparr>)
         = Inr s
       \<and> pm_histories s = [Some [1, 2, 3], Some [1, 2, 3], Some [1, 2, 3]])"
proof -
  define st where "st = (setup_program 160 80 0)
     \<lparr>values_dict := map_of (zip variables (replicate 10 [1, 2, 3]))\<rparr>"
  define rd where "rd = \<lparr>r_proximity = 0, r_lux = 100, r_now = 1, r_time_check = 1, r_time_set = 1,
            r_cpu_temperature = 50, r_temperature = 20, r_pressure = 1000, r_humidity = 40,
            r_lux_page = 100, r_gas = (10000 :: real, 20000 :: real, 30000 :: real),
            r_pms = ReadTimeoutError\<rparr>"
  have p: "r_pms rd = SerialTimeoutError \<or> r_pms rd = ReadTimeoutError"
    by (simp add: rd_def)
  have r: "buffers_ready st"
    unfolding st_def by (rule seeded_ready)
  define s1 where "s1 = ((sensor_read Lux ((sensor_read Proximity (st\<lparr>mode := 7\<rparr>))
      \<lparr>proximity := r_proximity rd\<rparr>))\<lparr>lux := r_lux rd\<rparr>)\<lparr>light_off_time := None\<rparr>"
  have b: "update_backlight (r_now rd)
             ((sensor_read Lux ((sensor_read Proximity (st\<lparr>mode := 7\<rparr>))
                \<lparr>proximity := r_proximity rd\<rparr>))\<lparr>lux := r_lux rd\<rparr>) = Inr s1"
    by (simp add: s1_def update_backlight_def rd_def st_def setup_program_def sensor_read_def)
  have m: "mode (update_page (r_time_check rd) (r_time_set rd) s1) = 7"
    by (simp add: s1_def update_page_def rd_def st_def setup_program_def sensor_read_def)
  have h: "pm_histories st = [Some [1, 2, 3], Some [1, 2, 3], Some [1, 2, 3]]"
    by (simp add: pm_histories_def st_def variables_def numeral_eq_Suc)
  have f: "frames (out (st\<lparr>mode := 7\<rparr>)) = []"
    by (simp add: st_def setup_program_def)
  have v: "values_dict (st\<lparr>mode := 7\<rparr>) = map_of (zip variables (replicate 10 [1, 2, 3]))"
    by (simp add: st_def)
  from particulate_timeout_skips [OF p, of "st\<lparr>mode := 7\<rparr>" 50 "[]"] b m f v
  have a: "\<exists>s. iteration rd (st\<lparr>mode := 7\<rparr>) = Inr s
       \<and> values_dict s = map_of (zip variables (replicate 10 [1, 2, 3]))
       \<and> frames (out s) = []
       \<and> last (out s) = Warning ''Failed to read PMS5003''"
    by auto
  from particulate_timeout_skips [OF p, of st 50 "[]"] r h
  have c: "\<exists>s. everything_after_smoothing 50 rd st = Inr s
       \<and> pm_histories s = [Some [1, 2, 3], Some [1, 2, 3], Some [1, 2, 3]]"
    by auto
  from a c show ?thesis
    unfolding st_def rd_def by simp
qed

end
